theory Spec2Isabelle
  imports Complex_Main "HOL-Library.AList" "HOL-Library.Log_Nat"
begin

section \<open>The taxonomic abundance trees of recentrifuge (trees.py)\<close>

text \<open>
  A \<^verbatim>\<open>TaxTree\<close> is a Python \<^verbatim>\<open>dict\<close> from taxid to \<^verbatim>\<open>TaxTree\<close> that also carries the
  attributes \<^verbatim>\<open>counts\<close>, \<^verbatim>\<open>taxlevel\<close>, \<^verbatim>\<open>score\<close> and \<^verbatim>\<open>acc\<close>. The dictionary part is an
  association list in insertion order (\<open>items\<close>); a Python dictionary never holds a
  key twice, and every operation below keeps that. The types of taxids (\<^verbatim>\<open>TaxId\<close>) and of
  ranks (\<^verbatim>\<open>Rank\<close>) are declared outside trees.py and stay type variables \<open>'t\<close> and
  \<open>'r\<close>. Python's unbounded \<^verbatim>\<open>int\<close> is \<open>int\<close>.

  Scores are Python floats. Their type is the type variable \<open>'f\<close>, and the float
  operations the code performs on them are parameters, gathered in the record
  \<open>float_ops\<close>: every definition and theorem below holds for every float arithmetic,
  rounding included. Two instances are given: \<open>ieee_ops\<close>, IEEE 754 binary64 with
  round-to-nearest-even on the rationals, and \<open>exact_ops\<close>, arithmetic without rounding.
\<close>

datatype error = ZeroDivisionError | KeyError | IndexError

datatype ('t, 'r, 'f) taxtree =
  TaxTree (counts: int) (taxlevel: 'r) (score: 'f) (acc: int)
          (items: "('t \<times> ('t, 'r, 'f) taxtree) list")

subsection \<open>Float arithmetic\<close>

text \<open>
  \<open>fadd\<close>, \<open>fmul\<close> and \<open>fdiv\<close> are \<^verbatim>\<open>+\<close>, \<^verbatim>\<open>*\<close> and \<^verbatim>\<open>/\<close> on two floats; \<open>fint\<close> is the
  conversion of an \<^verbatim>\<open>int\<close> operand to a float, which Python applies when the other operand
  is a float.
\<close>

record 'f float_ops =
  fadd :: "'f \<Rightarrow> 'f \<Rightarrow> 'f"
  fmul :: "'f \<Rightarrow> 'f \<Rightarrow> 'f"
  fdiv :: "'f \<Rightarrow> 'f \<Rightarrow> 'f"
  fint :: "int \<Rightarrow> 'f"

text \<open>Python's \<^verbatim>\<open>x / d\<close> on a float and an int raises \<^verbatim>\<open>ZeroDivisionError\<close> when \<open>d\<close> is 0.\<close>

definition py_div :: "'f float_ops \<Rightarrow> 'f \<Rightarrow> int \<Rightarrow> error + 'f" where
  "py_div fl x d =
     (if d = 0 then Inl ZeroDivisionError else Inr (fdiv fl x (fint fl d)))"

text \<open>Python's \<^verbatim>\<open>sum\<close> on a list of floats: it starts from the integer 0 and adds from the left.\<close>

definition py_sum :: "'f float_ops \<Rightarrow> 'f list \<Rightarrow> 'f" where
  "py_sum fl qs = foldl (fadd fl) (fint fl 0) qs"

text \<open>
  IEEE 754 binary64 on the rationals: a float is the rational it denotes, and every
  operation is the exact one followed by rounding to the nearest float with a 53-bit
  significand, ties to even. The exponent range is not bounded, so the instance is the
  machine's arithmetic wherever no result overflows or is subnormal. \<open>ilog2 x\<close> is the
  integer part of the binary logarithm of a positive \<open>x\<close>.
\<close>

definition pow2 :: "int \<Rightarrow> rat" where
  "pow2 e = (if 0 \<le> e then 2 ^ nat e else 1 / 2 ^ nat (- e))"

definition ilog2 :: "rat \<Rightarrow> int" where
  "ilog2 x =
     (if 1 \<le> x then bitlen \<lfloor>x\<rfloor> - 1
      else (let l = bitlen \<lfloor>1 / x\<rfloor> - 1
            in if 1 / x = pow2 l then - l else - (l + 1)))"

definition round_half_even :: "rat \<Rightarrow> int" where
  "round_half_even m =
     (let f = \<lfloor>m\<rfloor>; r = m - of_int f
      in if r < 1 / 2 then f
         else if 1 / 2 < r then f + 1
         else if even f then f else f + 1)"

definition rd :: "rat \<Rightarrow> rat" where
  "rd x =
     (if x = 0 then 0
      else (let e = ilog2 \<bar>x\<bar> - 52
            in sgn x * of_int (round_half_even (\<bar>x\<bar> / pow2 e)) * pow2 e))"

definition ieee_ops :: "rat float_ops" where
  "ieee_ops = \<lparr>fadd = (\<lambda>x y. rd (x + y)), fmul = (\<lambda>x y. rd (x * y)),
                fdiv = (\<lambda>x y. rd (x / y)), fint = (\<lambda>i. rd (of_int i))\<rparr>"

definition exact_ops :: "rat float_ops" where
  "exact_ops = \<lparr>fadd = (+), fmul = (*), fdiv = (/), fint = of_int\<rparr>"

subsection \<open>\<^verbatim>\<open>TaxTree.shape\<close>\<close>

text \<open>
  The list comprehension
  \<^verbatim>\<open>[self[tid].score * self[tid].acc / self.acc for tid in self]\<close>
  of \<^verbatim>\<open>shape\<close>, with \<open>a\<close> the value of \<^verbatim>\<open>self.acc\<close>.
\<close>

fun score_terms :: "'f float_ops \<Rightarrow> ('t \<times> ('t, 'r, 'f) taxtree) list \<Rightarrow> int
      \<Rightarrow> error + 'f list" where
  "score_terms fl [] a = Inr []"
| "score_terms fl ((tid, c) # rest) a =
     (case py_div fl (fmul fl (score c) (fint fl (acc c))) a of
        Inl e \<Rightarrow> Inl e
      | Inr q \<Rightarrow> (case score_terms fl rest a of Inl e \<Rightarrow> Inl e | Inr qs \<Rightarrow> Inr (q # qs)))"

text \<open>
  \<open>shape\<close> is the method; \<open>shape_loop kids a\<close> is its loop \<^verbatim>\<open>for tid in list(self)\<close> over
  the entries still to visit, with \<open>a\<close> the current \<^verbatim>\<open>self.acc\<close>. It returns the entries
  that stay in the dictionary (each child shaped in place) and the final \<^verbatim>\<open>self.acc\<close>.
\<close>

fun shape :: "'f float_ops \<Rightarrow> ('t, 'r, 'f) taxtree \<Rightarrow> error + ('t, 'r, 'f) taxtree"
and shape_loop :: "'f float_ops \<Rightarrow> ('t \<times> ('t, 'r, 'f) taxtree) list \<Rightarrow> int
      \<Rightarrow> error + (('t \<times> ('t, 'r, 'f) taxtree) list \<times> int)" where
  "shape fl (TaxTree c r s a kids) =
     (case shape_loop fl kids c of
        Inl e \<Rightarrow> Inl e
      | Inr (kids', a') \<Rightarrow>
          if c = 0 then
            (if a' \<noteq> 0 then
               (case score_terms fl kids' a' of
                  Inl e \<Rightarrow> Inl e
                | Inr qs \<Rightarrow> Inr (TaxTree c r (py_sum fl qs) a' kids'))
             else Inr (TaxTree c r s a' kids'))
          else Inr (TaxTree c r s a' kids'))"
| "shape_loop fl [] a = Inr ([], a)"
| "shape_loop fl ((tid, t) # rest) a =
     (case shape fl t of
        Inl e \<Rightarrow> Inl e
      | Inr t' \<Rightarrow>
          if acc t' = 0 then shape_loop fl rest a
          else (case shape_loop fl rest (a + acc t') of
                  Inl e \<Rightarrow> Inl e
                | Inr (kept, a') \<Rightarrow> Inr ((tid, t') # kept, a')))"

subsection \<open>Quantities of a tree used in the statements\<close>

text \<open>The sum of \<^verbatim>\<open>counts\<close> over a node and all the nodes below it.\<close>

fun total_counts :: "('t, 'r, 'f) taxtree \<Rightarrow> int" where
  "total_counts (TaxTree c r s a kids) =
     c + sum_list (map (\<lambda>p. total_counts (snd p)) kids)"

text \<open>Invariant (b) of the data model, at a node and at every node below it.\<close>

fun acc_ok :: "('t, 'r, 'f) taxtree \<Rightarrow> bool" where
  "acc_ok (TaxTree c r s a kids) =
     (a = c + sum_list (map (\<lambda>p. acc (snd p)) kids)
      \<and> list_all (\<lambda>p. acc_ok (snd p)) kids)"


text \<open>Every node of a tree, the node itself first.\<close>

fun all_nodes :: "('t, 'r, 'f) taxtree \<Rightarrow> ('t, 'r, 'f) taxtree list" where
  "all_nodes (TaxTree c r s a kids) =
     TaxTree c r s a kids # concat (map (\<lambda>p. all_nodes (snd p)) kids)"

text \<open>
  The accumulated-count-weighted average of the scores of the entries \<open>kids\<close>, as the
  data model words it: the scores weighted by \<open>acc\<close>, over the sum of the weights, in
  exact arithmetic.
\<close>

definition weighted_avg :: "('t \<times> ('t, 'r, rat) taxtree) list \<Rightarrow> rat" where
  "weighted_avg kids =
     sum_list (map (\<lambda>p. score (snd p) * of_int (acc (snd p))) kids)
       / of_int (sum_list (map (\<lambda>p. acc (snd p)) kids))"

text \<open>
  The same average as \<open>shape\<close> evaluates it in float arithmetic: the float sum, over the
  entries in dictionary order, of \<^verbatim>\<open>score * acc / a\<close>, every operation rounded.
\<close>

definition float_weighted_avg ::
  "'f float_ops \<Rightarrow> ('t \<times> ('t, 'r, 'f) taxtree) list \<Rightarrow> int \<Rightarrow> 'f" where
  "float_weighted_avg fl kids a =
     py_sum fl
       (map (\<lambda>p. fdiv fl (fmul fl (score (snd p)) (fint fl (acc (snd p)))) (fint fl a))
          kids)"


text \<open>The data model's \<open>counts: non-negative integer\<close>, at every node.\<close>

fun nonneg_counts :: "('t, 'r, 'f) taxtree \<Rightarrow> bool" where
  "nonneg_counts (TaxTree c r s a kids) =
     (0 \<le> c \<and> list_all (\<lambda>p. nonneg_counts (snd p)) kids)"


subsection \<open>\<^verbatim>\<open>TaxTree.prune\<close>\<close>

text \<open>
  \<^verbatim>\<open>Rank\<close> is declared in rank.py, outside this development: its truth value and its
  comparisons are parameters. \<^verbatim>\<open>min_rank\<close> is \<open>None\<close> or a rank.
\<close>

record 'r rank_ops =
  rank_bool :: "'r \<Rightarrow> bool"
  rank_lt :: "'r \<Rightarrow> 'r \<Rightarrow> bool"
  rank_le :: "'r \<Rightarrow> 'r \<Rightarrow> bool"

text \<open>
  The test of \<^verbatim>\<open>prune\<close> on a child that is a leaf:
  \<^verbatim>\<open>self[tid].counts < min_taxa or (min_rank and (self[tid].taxlevel < min_rank
  or self.taxlevel <= min_rank))\<close>.
\<close>

definition prune_candidate ::
  "'r rank_ops \<Rightarrow> int \<Rightarrow> 'r option \<Rightarrow> 'r \<Rightarrow> ('t, 'r, 'f) taxtree \<Rightarrow> bool" where
  "prune_candidate ops min_taxa min_rank self_level child =
     (counts child < min_taxa
      \<or> (case min_rank of
            None \<Rightarrow> False
          | Some m \<Rightarrow> rank_bool ops m
                \<and> (rank_lt ops (taxlevel child) m \<or> rank_le ops self_level m)))"

text \<open>
  \<open>prune\<close> returns \<^verbatim>\<open>bool(self)\<close> and the node as the call leaves it. \<open>prune_loop\<close> is the
  loop \<^verbatim>\<open>for tid in list(self)\<close>: \<open>r\<close> is \<^verbatim>\<open>self.taxlevel\<close>, the triple is the current
  \<^verbatim>\<open>(self.counts, self.score, self.acc)\<close>, and the result holds the entries that stay.
  \<^verbatim>\<open>self[tid] and self[tid].prune(...)\<close> calls \<^verbatim>\<open>prune\<close> only on a child that has
  entries. The \<^verbatim>\<open>debug\<close> printing is left out.
\<close>

fun prune :: "'f float_ops \<Rightarrow> 'r rank_ops \<Rightarrow> int \<Rightarrow> 'r option \<Rightarrow> bool \<Rightarrow> ('t, 'r, 'f) taxtree
      \<Rightarrow> error + (bool \<times> ('t, 'r, 'f) taxtree)"
and prune_loop :: "'f float_ops \<Rightarrow> 'r rank_ops \<Rightarrow> int \<Rightarrow> 'r option \<Rightarrow> bool \<Rightarrow> 'r
      \<Rightarrow> ('t \<times> ('t, 'r, 'f) taxtree) list \<Rightarrow> int \<times> 'f \<times> int
      \<Rightarrow> error + (('t \<times> ('t, 'r, 'f) taxtree) list \<times> int \<times> 'f \<times> int)" where
  "prune fl ops min_taxa min_rank collapse (TaxTree c r s a kids) =
     (case prune_loop fl ops min_taxa min_rank collapse r kids (c, s, a) of
        Inl e \<Rightarrow> Inl e
      | Inr (kids', c', s', a') \<Rightarrow> Inr (kids' \<noteq> [], TaxTree c' r s' a' kids'))"
| "prune_loop fl ops min_taxa min_rank collapse r [] st = Inr ([], st)"
| "prune_loop fl ops min_taxa min_rank collapse r ((tid, t) # rest) (c, s, a) =
     (case (if items t \<noteq> [] then prune fl ops min_taxa min_rank collapse t
            else Inr (False, t)) of
        Inl e \<Rightarrow> Inl e
      | Inr (branches, t') \<Rightarrow>
          if branches then
            (case prune_loop fl ops min_taxa min_rank collapse r rest (c, s, a) of
               Inl e \<Rightarrow> Inl e
             | Inr (kept, st') \<Rightarrow> Inr ((tid, t') # kept, st'))
          else if prune_candidate ops min_taxa min_rank r t' then
            (if collapse then
               (let collapsed_counts = c + counts t' in
                if collapsed_counts \<noteq> 0 then
                  (case py_div fl
                          (fadd fl (fmul fl s (fint fl c))
                             (fmul fl (score t') (fint fl (counts t'))))
                          collapsed_counts of
                     Inl e \<Rightarrow> Inl e
                   | Inr s' \<Rightarrow>
                       prune_loop fl ops min_taxa min_rank collapse r rest
                         (collapsed_counts, s', a))
                else prune_loop fl ops min_taxa min_rank collapse r rest (c, s, a))
             else
               prune_loop fl ops min_taxa min_rank collapse r rest
                 (c, s, if a > counts t' then a - counts t' else 0))
          else
            (case prune_loop fl ops min_taxa min_rank collapse r rest (c, s, a) of
               Inl e \<Rightarrow> Inl e
             | Inr (kept, st') \<Rightarrow> Inr ((tid, t') # kept, st')))"



subsection \<open>\<^verbatim>\<open>TaxTree.grow\<close>\<close>

text \<open>
  \<^verbatim>\<open>ROOT\<close> and \<^verbatim>\<open>NO_SCORE\<close> are constants of recentrifuge.config, outside this
  development: they are parameters, gathered in a record.
\<close>

record ('t, 'f) config =
  ROOT :: 't
  NO_SCORE :: 'f

text \<open>
  Of the \<^verbatim>\<open>Taxonomy\<close> object, \<open>grow\<close> uses the dictionary \<^verbatim>\<open>children\<close> (taxid to its
  child taxids, in the order of iteration) and the method \<^verbatim>\<open>get_rank\<close>.
\<close>

record ('t, 'r) taxonomy =
  children :: "('t \<times> 't list) list"
  get_rank :: "'t \<Rightarrow> 'r"

text \<open>\<^verbatim>\<open>d.get(k, dflt)\<close> on a dictionary or \<^verbatim>\<open>Counter\<close>.\<close>

definition dict_get :: "('k \<times> 'v) list \<Rightarrow> 'k \<Rightarrow> 'v \<Rightarrow> 'v" where
  "dict_get d k dflt = (case map_of d k of None \<Rightarrow> dflt | Some v \<Rightarrow> v)"

text \<open>
  The three defaults at the head of \<open>grow\<close>: \<^verbatim>\<open>if not _path: _path = []\<close>,
  \<^verbatim>\<open>if not abundances: abundances = col.Counter({ROOT: 1})\<close> and
  \<^verbatim>\<open>if not scores: scores = {}\<close>. An argument is \<open>None\<close> or a value, and an empty
  list or dictionary is false in Python.
\<close>

definition path_or_empty :: "'t list option \<Rightarrow> 't list" where
  "path_or_empty path = (case path of None \<Rightarrow> [] | Some p \<Rightarrow> p)"

definition abundances_or_default :: "('t, 'f) config \<Rightarrow> ('t \<times> int) list option \<Rightarrow> ('t \<times> int) list" where
  "abundances_or_default cfg abundances =
     (case abundances of None \<Rightarrow> [(ROOT cfg, 1)] | Some [] \<Rightarrow> [(ROOT cfg, 1)] | Some ab \<Rightarrow> ab)"

definition scores_or_empty :: "('t \<times> 'f) list option \<Rightarrow> ('t \<times> 'f) list" where
  "scores_or_empty scores = (case scores of None \<Rightarrow> [] | Some sc \<Rightarrow> sc)"

text \<open>\<^verbatim>\<open>self[k] = v\<close>: a key that is present keeps its place, a new key goes last.\<close>

definition setitem :: "('t, 'r, 'f) taxtree \<Rightarrow> 't \<Rightarrow> ('t, 'r, 'f) taxtree \<Rightarrow> ('t, 'r, 'f) taxtree" where
  "setitem self k v =
     TaxTree (counts self) (taxlevel self) (score self) (acc self) (AList.update k v (items self))"

text \<open>
  \<open>grow\<close> takes the node \<^verbatim>\<open>self\<close> and returns it as the call leaves it. The new node
  \<^verbatim>\<open>self[taxid]\<close> is grown by the calls for the children of \<open>taxid\<close>, one after the
  other, each on the node the previous one left. The recursion ends because a taxid that
  has children and is not on the path is added to the path, and the taxids with children
  are finitely many.
\<close>

function grow :: "('t, 'f) config \<Rightarrow> ('t, 'r) taxonomy \<Rightarrow> ('t \<times> int) list option
      \<Rightarrow> ('t \<times> 'f) list option \<Rightarrow> 't \<Rightarrow> 't list option
      \<Rightarrow> ('t, 'r, 'f) taxtree \<Rightarrow> ('t, 'r, 'f) taxtree" where
  "grow cfg taxonomy abundances scores taxid path self =
     (let path' = path_or_empty path;
          abundances' = abundances_or_default cfg abundances;
          scores' = scores_or_empty scores
      in if taxid \<notin> set path' then
           (let node = TaxTree (dict_get abundances' taxid 0) (get_rank taxonomy taxid)
                         (dict_get scores' taxid (NO_SCORE cfg)) 0 [];
                node' = (case map_of (children taxonomy) taxid of
                           None \<Rightarrow> node
                         | Some cs \<Rightarrow>
                             fold (\<lambda>child n. grow cfg taxonomy (Some abundances') (Some scores')
                                                child (Some (path' @ [taxid])) n)
                                  cs node)
            in setitem self taxid node')
         else self)"
  by pat_completeness auto
termination
proof (relation "measure (\<lambda>(cfg, taxonomy, abundances, scores, taxid, path, self).
          card (fst ` set (children taxonomy) - set (path_or_empty path)))")
  show "wf (measure (\<lambda>(cfg :: ('t, 'f) config, taxonomy :: ('t, 'r) taxonomy,
          abundances :: ('t \<times> int) list option, scores :: ('t \<times> 'f) list option,
          taxid :: 't, path, self :: ('t, 'r, 'f) taxtree).
          card (fst ` set (children taxonomy) - set (path_or_empty path))))"
    by simp
next
  fix cfg :: "('t, 'f) config" and taxonomy :: "('t, 'r) taxonomy"
    and abundances :: "('t \<times> int) list option" and scores :: "('t \<times> 'f) list option"
    and taxid :: 't and path :: "'t list option" and self :: "('t, 'r, 'f) taxtree"
    and x xa xb xc x2 xd and xe :: "('t, 'r, 'f) taxtree"
  assume p: "x = path_or_empty path" and nin: "taxid \<notin> set x"
    and ch: "map_of (children taxonomy) taxid = Some x2"
  let ?K = "fst ` set (children taxonomy)"
  have "taxid \<in> ?K" using ch by (metis map_of_SomeD fst_conv image_eqI)
  with nin have "?K - set (x @ [taxid]) \<subset> ?K - set x" by auto
  then have "card (?K - set (x @ [taxid])) < card (?K - set x)"
    by (intro psubset_card_mono) auto
  moreover have "path_or_empty (Some (x @ [taxid])) = x @ [taxid]"
    by (simp add: path_or_empty_def)
  ultimately show "((cfg, taxonomy, Some xa, Some xb, xd, Some (x @ [taxid]), xe),
              cfg, taxonomy, abundances, scores, taxid, path, self)
        \<in> measure (\<lambda>(cfg, taxonomy, abundances, scores, taxid, path, self).
          card (fst ` set (children taxonomy) - set (path_or_empty path)))"
    using p by simp
qed

declare grow.simps [simp del]


text \<open>The child taxids the taxonomy lists for a taxid, none when it has no entry.\<close>

definition kids_of :: "('t, 'r) taxonomy \<Rightarrow> 't \<Rightarrow> 't list" where
  "kids_of taxonomy taxid =
     (case map_of (children taxonomy) taxid of None \<Rightarrow> [] | Some cs \<Rightarrow> cs)"

text \<open>
  The root-to-node paths of a tree: for every node below the top one, the taxids on
  the way to it, the node's own last.
\<close>

fun paths :: "('t, 'r, 'f) taxtree \<Rightarrow> 't list list" where
  "paths (TaxTree c r s a kids) =
     concat (map (\<lambda>p. [fst p] # map ((#) (fst p)) (paths (snd p))) kids)"

text \<open>The paths that pass through one entry of a dictionary.\<close>

definition entry_paths :: "'t \<times> ('t, 'r, 'f) taxtree \<Rightarrow> 't list set" where
  "entry_paths p = insert [fst p] ((#) (fst p) ` set (paths (snd p)))"

text \<open>No path below \<open>t\<close> holds a taxid twice, nor a taxid of \<open>path\<close>.\<close>

definition avoids :: "'t list \<Rightarrow> ('t, 'r, 'f) taxtree \<Rightarrow> bool" where
  "avoids path t = (\<forall>p \<in> set (paths t). distinct p \<and> set p \<inter> set path = {})"

text \<open>\<open>counts\<close> is zero at a node and at every node below it.\<close>

fun allzero :: "('t, 'r, 'f) taxtree \<Rightarrow> bool" where
  "allzero (TaxTree c r s a kids) = (c = 0 \<and> list_all (\<lambda>p. allzero (snd p)) kids)"

subsection \<open>\<^verbatim>\<open>TaxTree.get_taxa\<close>\<close>

text \<open>
  The four optional output dictionaries \<^verbatim>\<open>abundance\<close>, \<^verbatim>\<open>accs\<close>, \<^verbatim>\<open>scores\<close> and \<^verbatim>\<open>ranks\<close>:
  each is \<open>None\<close> or a dictionary, and \<open>get_taxa\<close> returns them as the call leaves them.
\<close>

record ('t, 'r, 'f) taxa_out =
  out_abundance :: "('t \<times> int) list option"
  out_accs :: "('t \<times> int) list option"
  out_scores :: "('t \<times> 'f) list option"
  out_ranks :: "('t \<times> 'r) list option"

text \<open>The four guarded assignments that record the taxon \<open>tid\<close>, the node \<open>t\<close> being \<^verbatim>\<open>self[tid]\<close>.\<close>

definition record_taxon ::
  "('t, 'f) config \<Rightarrow> 't \<Rightarrow> ('t, 'r, 'f) taxtree \<Rightarrow> ('t, 'r, 'f) taxa_out \<Rightarrow> ('t, 'r, 'f) taxa_out" where
  "record_taxon cfg tid t out =
     \<lparr>out_abundance = map_option (AList.update tid (counts t)) (out_abundance out),
      out_accs = map_option (AList.update tid (acc t)) (out_accs out),
      out_scores = (if score t \<noteq> NO_SCORE cfg
                    then map_option (AList.update tid (score t)) (out_scores out)
                    else out_scores out),
      out_ranks = map_option (AList.update tid (taxlevel t)) (out_ranks out)\<rparr>"

text \<open>
  \<open>get_taxa\<close> first decrements \<^verbatim>\<open>mindepth\<close>, then, unless \<^verbatim>\<open>maxdepth\<close> is 1, decrements
  \<^verbatim>\<open>maxdepth\<close> and runs the loop \<^verbatim>\<open>for tid in self\<close>, which is \<open>get_taxa_loop\<close> with the
  two depths already decremented. \<^verbatim>\<open>include\<close> and \<^verbatim>\<open>exclude\<close> are used for emptiness and
  membership only and are lists here; \<^verbatim>\<open>is just_level\<close> on members of an enumeration is
  equality.
\<close>

fun get_taxa :: "('t, 'f) config \<Rightarrow> ('t, 'r, 'f) taxa_out \<Rightarrow> int \<Rightarrow> int \<Rightarrow> 't list \<Rightarrow> 't list
      \<Rightarrow> 'r option \<Rightarrow> bool \<Rightarrow> ('t, 'r, 'f) taxtree \<Rightarrow> ('t, 'r, 'f) taxa_out"
and get_taxa_loop :: "('t, 'f) config \<Rightarrow> int \<Rightarrow> int \<Rightarrow> 't list \<Rightarrow> 't list
      \<Rightarrow> 'r option \<Rightarrow> bool \<Rightarrow> ('t \<times> ('t, 'r, 'f) taxtree) list \<Rightarrow> ('t, 'r, 'f) taxa_out
      \<Rightarrow> ('t, 'r, 'f) taxa_out" where
  "get_taxa cfg out mindepth maxdepth include exclude just_level in_branch0
       (TaxTree c r s a kids) =
     (if maxdepth \<noteq> 1 then
        get_taxa_loop cfg (mindepth - 1) (maxdepth - 1) include exclude just_level in_branch0
          kids out
      else out)"
| "get_taxa_loop cfg mindepth maxdepth include exclude just_level in_branch0 [] out = out"
| "get_taxa_loop cfg mindepth maxdepth include exclude just_level in_branch0
       ((tid, t) # rest) out =
     (let in_branch = ((in_branch0 \<or> include = [] \<or> tid \<in> set include)
                        \<and> tid \<notin> set exclude);
          out1 = (if mindepth \<le> 0 \<and> in_branch
                     \<and> (just_level = None \<or> Some (taxlevel t) = just_level)
                  then record_taxon cfg tid t out else out);
          out2 = (if items t \<noteq> []
                  then get_taxa cfg out1 mindepth maxdepth include exclude just_level
                         in_branch t
                  else out1)
      in get_taxa_loop cfg mindepth maxdepth include exclude just_level in_branch0 rest out2)"

text \<open>
  The depth window of \<open>get_taxa\<close>, in levels counted from 1 at the root: level \<open>j\<close> is
  at or below \<^verbatim>\<open>mindepth\<close>, and \<^verbatim>\<open>maxdepth\<close> is unbounded (zero or negative) or beyond \<open>j\<close>.
\<close>

definition level_recorded :: "int \<Rightarrow> int \<Rightarrow> int \<Rightarrow> bool" where
  "level_recorded mindepth maxdepth j = (mindepth \<le> j \<and> (maxdepth \<le> 0 \<or> j < maxdepth))"

subsection \<open>\<^verbatim>\<open>TaxTree.trace\<close> and \<^verbatim>\<open>TaxTree.get_lineage\<close>\<close>

text \<open>
  \<open>trace\<close> returns the flag \<^verbatim>\<open>target_found\<close> and the list \<^verbatim>\<open>nodes\<close> as the call leaves it.
  \<^verbatim>\<open>nodes.pop()\<close> raises \<^verbatim>\<open>IndexError\<close> on an empty list.
\<close>

fun trace :: "('t, 'f) config \<Rightarrow> 't \<Rightarrow> ('t, 'r, 'f) taxtree \<Rightarrow> 't list \<Rightarrow> error + (bool \<times> 't list)"
and trace_loop :: "('t, 'f) config \<Rightarrow> 't \<Rightarrow> ('t \<times> ('t, 'r, 'f) taxtree) list \<Rightarrow> 't list
      \<Rightarrow> error + (bool \<times> 't list)" where
  "trace cfg target (TaxTree c r s a kids) nodes = trace_loop cfg target kids nodes"
| "trace_loop cfg target [] nodes = Inr (False, nodes)"
| "trace_loop cfg target ((tid, t) # rest) nodes =
     (if items t \<noteq> [] then
        (if target \<in> set (map fst (items t)) \<and> target \<noteq> ROOT cfg then
           Inr (True, nodes @ [tid] @ [target])
         else
           (case trace cfg target t (nodes @ [tid]) of
              Inl e \<Rightarrow> Inl e
            | Inr (found, nodes') \<Rightarrow>
                if found then Inr (True, nodes')
                else (case nodes' of
                        [] \<Rightarrow> Inl IndexError
                      | _ # _ \<Rightarrow> trace_loop cfg target rest (butlast nodes'))))
      else trace_loop cfg target rest nodes)"

text \<open>
  The log text. \<open>esc\<close> is the character \<^verbatim>\<open>\033\<close>; \<open>str\<close> is Python's conversion of a taxid
  to text, used by the f-strings.
\<close>

definition esc :: string where
  "esc = [CHR 0x1B]"

definition lineage_header :: string where
  "lineage_header = ''  '' @ esc @ ''[90mGetting lineage of taxa...'' @ esc @ ''[0m''"

definition lineage_footer :: string where
  "lineage_footer = esc @ ''[92m OK! '' @ esc @ ''[0m'' @ [CHR 0x0A]"

definition warn_tracing :: "('t \<Rightarrow> string) \<Rightarrow> 't \<Rightarrow> string" where
  "warn_tracing str tid =
     ''['' @ esc @ ''[93mWARNING'' @ esc @ ''[0m: Failed tracing of taxid '' @ str tid
       @ '': missing in tree]'' @ [CHR 0x0A]"

definition warn_unknown :: "('t \<Rightarrow> string) \<Rightarrow> 't \<Rightarrow> string" where
  "warn_unknown str tid =
     ''['' @ esc @ ''[93mWARNING'' @ esc @ ''[0m: Discarded unknown taxid '' @ str tid
       @ '': missing in parents]'' @ [CHR 0x0A]"

text \<open>
  \<open>lineage_loop\<close> is the loop \<^verbatim>\<open>for tid in taxids\<close> of \<open>get_lineage\<close>, on the pair of the text
  written so far and the dictionary \<^verbatim>\<open>nodes_traced\<close>. \<^verbatim>\<open>parents\<close> is used for membership
  only.
\<close>

fun lineage_loop :: "('t, 'f) config \<Rightarrow> ('t \<Rightarrow> string) \<Rightarrow> ('t, 'r, 'f) taxtree \<Rightarrow> ('t \<rightharpoonup> 't)
      \<Rightarrow> 't list \<Rightarrow> string \<times> ('t \<times> 't list) list
      \<Rightarrow> error + (string \<times> ('t \<times> 't list) list)" where
  "lineage_loop cfg str self parents [] st = Inr st"
| "lineage_loop cfg str self parents (tid # rest) (output, nodes_traced) =
     (if tid = ROOT cfg then
        lineage_loop cfg str self parents rest
          (output, AList.update (ROOT cfg) [ROOT cfg] nodes_traced)
      else if tid \<in> dom parents then
        (case trace cfg tid self [] of
           Inl e \<Rightarrow> Inl e
         | Inr (found, nodes) \<Rightarrow>
             if found then
               lineage_loop cfg str self parents rest
                 (output, AList.update tid nodes nodes_traced)
             else
               lineage_loop cfg str self parents rest
                 (output @ warn_tracing str tid, nodes_traced))
      else
        lineage_loop cfg str self parents rest (output @ warn_unknown str tid, nodes_traced))"

definition get_lineage :: "('t, 'f) config \<Rightarrow> ('t \<Rightarrow> string) \<Rightarrow> ('t, 'r, 'f) taxtree \<Rightarrow> ('t \<rightharpoonup> 't)
      \<Rightarrow> 't list \<Rightarrow> error + (string \<times> ('t \<times> 't list) list)" where
  "get_lineage cfg str self parents taxids =
     (case lineage_loop cfg str self parents taxids (lineage_header, []) of
        Inl e \<Rightarrow> Inl e
      | Inr (output, nodes_traced) \<Rightarrow> Inr (output @ lineage_footer, nodes_traced))"

section \<open>Shaping\<close>

lemma score_terms_val:
  "a \<noteq> 0 \<Longrightarrow>
   score_terms fl kids a =
     Inr (map (\<lambda>p. fdiv fl (fmul fl (score (snd p)) (fint fl (acc (snd p)))) (fint fl a))
            kids)"
  by (induction fl kids a rule: score_terms.induct) (auto simp: py_div_def)

lemma shape_total_aux:
  "\<exists>t'. shape fl (t :: ('t, 'r, 'f) taxtree) = Inr t'"
  "\<exists>kept a'. shape_loop fl (kids :: ('t \<times> ('t, 'r, 'f) taxtree) list) a = Inr (kept, a')"
proof (induction fl t and fl kids a rule: shape_shape_loop.induct)
  case (1 fl c r s a kids)
  then obtain kept a' where k: "shape_loop fl kids c = Inr (kept, a')" by blast
  show ?case
  proof (cases "c = 0 \<and> a' \<noteq> 0")
    case True
    then show ?thesis using k by (simp add: score_terms_val)
  next
    case False
    with k show ?thesis by auto
  qed
next
  case (2 fl a)
  show ?case by simp
next
  case (3 fl tid t rest a)
  then obtain t' where t': "shape fl t = Inr t'" by blast
  show ?case
  proof (cases "acc t' = 0")
    case True
    with 3(2)[OF t'] t' show ?thesis by simp
  next
    case False
    with 3(3)[OF t'] t' show ?thesis by auto
  qed
qed

lemma shape_acc_aux:
  "\<forall>t'. shape fl (t :: ('t, 'r, 'f) taxtree) = Inr t' \<longrightarrow> acc_ok t' \<and> acc t' = total_counts t'"
  "\<forall>kept a'. shape_loop fl (kids :: ('t \<times> ('t, 'r, 'f) taxtree) list) a = Inr (kept, a') \<longrightarrow>
      a' = a + sum_list (map (\<lambda>p. acc (snd p)) kept)
      \<and> list_all (\<lambda>p. acc_ok (snd p)) kept
      \<and> sum_list (map (\<lambda>p. acc (snd p)) kept)
          = sum_list (map (\<lambda>p. total_counts (snd p)) kept)"
proof (induction fl t and fl kids a rule: shape_shape_loop.induct)
  case (1 fl c r s a kids)
  then show ?case by (auto split: sum.splits prod.splits if_splits)
next
  case (2 fl a)
  show ?case by simp
next
  case (3 fl tid t rest a)
  then show ?case by (auto split: sum.splits prod.splits if_splits)
qed

text \<open>
  Claim C1. For every single-sample tree, \<open>shape\<close> returns a tree in which the
  accumulated count of every node is its own counts plus the sum of the accumulated
  counts of the children it still has (\<open>acc_ok\<close>), and the \<open>acc\<close> of the top node is the
  sum of \<open>counts\<close> over all the nodes that exist after \<open>shape\<close>.
\<close>

theorem shape_conservation:
  "\<exists>t'. shape fl t = Inr t' \<and> acc_ok t' \<and> acc t' = total_counts t'"
  using shape_total_aux(1)[of fl t] shape_acc_aux(1)[of fl t] by blast

theorem shape_conservation_witness:
  "\<exists>t'. shape exact_ops (TaxTree 0 () 0 0
            [(1::nat, TaxTree 2 () 3 0 [(4, TaxTree 0 () 0 0 [])]),
             (2, TaxTree 0 () 9 0 []),
             (3, TaxTree 0 () 7 0 [(5, TaxTree 6 () 1 0 [])])]) = Inr t'
        \<and> acc_ok t' \<and> acc t' = 8 \<and> total_counts t' = 8"
  using shape_conservation
    [of exact_ops "TaxTree 0 () 0 0
            [(1::nat, TaxTree 2 () 3 0 [(4, TaxTree 0 () 0 0 [])]),
             (2, TaxTree 0 () 9 0 []),
             (3, TaxTree 0 () 7 0 [(5, TaxTree 6 () 1 0 [])])]"]
  by (simp add: py_div_def py_sum_def exact_ops_def)

lemma shape_loop_fix:
  "list_all (\<lambda>p. shape fl (snd p) = Inr (snd p) \<and> acc (snd p) \<noteq> 0) ks \<Longrightarrow>
   shape_loop fl ks b = Inr (ks, b + sum_list (map (\<lambda>p. acc (snd p)) ks))"
  by (induction ks arbitrary: b) (auto simp: algebra_simps)

lemma shape_idem_aux:
  "\<forall>t'. shape fl (t :: ('t, 'r, 'f) taxtree) = Inr t' \<longrightarrow> shape fl t' = Inr t'"
  "\<forall>kept a'. shape_loop fl (kids :: ('t \<times> ('t, 'r, 'f) taxtree) list) a = Inr (kept, a') \<longrightarrow>
      list_all (\<lambda>p. shape fl (snd p) = Inr (snd p) \<and> acc (snd p) \<noteq> 0) kept
      \<and> a' = a + sum_list (map (\<lambda>p. acc (snd p)) kept)"
proof (induction fl t and fl kids a rule: shape_shape_loop.induct)
  case (1 fl c r s a kids)
  show ?case
  proof (intro allI impI)
    fix t' assume h: "shape fl (TaxTree c r s a kids) = Inr t'"
    obtain kept a' where k: "shape_loop fl kids c = Inr (kept, a')"
      using shape_total_aux(2) by blast
    from 1 k have again: "shape_loop fl kept c = Inr (kept, a')"
      using shape_loop_fix[of fl kept c] by simp
    show "shape fl t' = Inr t'"
      using h k again by (auto split: sum.splits if_splits)
  qed
next
  case (2 fl a)
  show ?case by simp
next
  case (3 fl tid t rest a)
  then show ?case by (auto split: sum.splits prod.splits if_splits)
qed

text \<open>
  Claim C4. Calling \<open>shape\<close> on the tree that \<open>shape\<close> returned gives that tree back: the
  same entries, and the same \<open>counts\<close>, \<open>acc\<close> and \<open>score\<close> at every node.
\<close>

theorem shape_idempotent:
  "\<exists>t'. shape fl t = Inr t' \<and> shape fl t' = Inr t'"
  using shape_total_aux(1)[of fl t] shape_idem_aux(1)[of fl t] by blast

lemma shape_loop_acc:
  "shape_loop fl kids a = Inr (kept, a') \<Longrightarrow> a' = a + sum_list (map (\<lambda>p. acc (snd p)) kept)"
  using shape_acc_aux(2)[of fl kids a] by blast

lemma shape_score:
  assumes "shape fl t = Inr t'"
  shows "counts t' = counts t
       \<and> (counts t = 0 \<and> acc t' \<noteq> 0 \<longrightarrow>
            score t' = float_weighted_avg fl (items t') (acc t')
            \<and> acc t' = sum_list (map (\<lambda>p. acc (snd p)) (items t')))
       \<and> (counts t \<noteq> 0 \<longrightarrow> score t' = score t)"
proof (cases t)
  case (TaxTree c r s a kids)
  obtain kept a' where k: "shape_loop fl kids c = Inr (kept, a')"
    using shape_total_aux(2) by blast
  have a': "a' = c + sum_list (map (\<lambda>p. acc (snd p)) kept)"
    using shape_loop_acc[OF k] .
  show ?thesis
  proof (cases "c = 0 \<and> a' \<noteq> 0")
    case True
    then have "score_terms fl kept a'
        = Inr (map (\<lambda>p. fdiv fl (fmul fl (score (snd p)) (fint fl (acc (snd p)))) (fint fl a'))
                 kept)"
      by (simp add: score_terms_val)
    with assms TaxTree k True a' show ?thesis
      by (auto simp: float_weighted_avg_def)
  next
    case False
    with assms TaxTree k show ?thesis by (auto split: if_splits)
  qed
qed

lemma py_sum_exact: "py_sum exact_ops qs = sum_list qs"
proof -
  have "foldl (+) z qs = z + sum_list qs" for z :: rat
    by (induction qs arbitrary: z) simp_all
  then show ?thesis by (simp add: py_sum_def exact_ops_def)
qed

lemma sum_list_divide:
  "sum_list (map (\<lambda>p. f p / (d::rat)) xs) = sum_list (map f xs) / d"
  by (induction xs) (simp_all add: add_divide_distrib)

lemma float_weighted_avg_exact:
  "float_weighted_avg exact_ops kids (sum_list (map (\<lambda>p. acc (snd p)) kids))
     = weighted_avg kids"
proof -
  have "float_weighted_avg exact_ops kids d
      = sum_list (map (\<lambda>p. score (snd p) * of_int (acc (snd p)) / of_int d) kids)" for d
    by (simp add: float_weighted_avg_def py_sum_exact) (simp add: exact_ops_def)
  then show ?thesis by (simp add: weighted_avg_def sum_list_divide)
qed

lemma shape_nodes_aux:
  "\<forall>t'. shape fl (t :: ('t, 'r, 'f) taxtree) = Inr t' \<longrightarrow>
      (\<forall>n \<in> set (all_nodes t'). \<exists>m \<in> set (all_nodes t). shape fl m = Inr n)"
  "\<forall>kept a'. shape_loop fl (kids :: ('t \<times> ('t, 'r, 'f) taxtree) list) a = Inr (kept, a') \<longrightarrow>
      (\<forall>p \<in> set kept. \<forall>n \<in> set (all_nodes (snd p)).
         \<exists>q \<in> set kids. \<exists>m \<in> set (all_nodes (snd q)). shape fl m = Inr n)"
proof (induction fl t and fl kids a rule: shape_shape_loop.induct)
  case (1 fl c r s a kids)
  show ?case
  proof (intro allI impI ballI)
    fix t' n assume h: "shape fl (TaxTree c r s a kids) = Inr t'" and n: "n \<in> set (all_nodes t')"
    obtain kept a' where k: "shape_loop fl kids c = Inr (kept, a')"
      using shape_total_aux(2) by blast
    from h k obtain s' where t': "t' = TaxTree c r s' a' kept"
      by (auto split: sum.splits if_splits)
    show "\<exists>m \<in> set (all_nodes (TaxTree c r s a kids)). shape fl m = Inr n"
    proof (cases "n = t'")
      case True
      with h show ?thesis by auto
    next
      case False
      with n t' obtain p where "p \<in> set kept" "n \<in> set (all_nodes (snd p))" by auto
      with 1 k obtain q m where "q \<in> set kids" "m \<in> set (all_nodes (snd q))" "shape fl m = Inr n"
        by blast
      then show ?thesis by auto
    qed
  qed
next
  case (2 fl a)
  show ?case by simp
next
  case (3 fl tid t rest a)
  show ?case
  proof (intro allI impI ballI)
    fix kept a' p n
    assume h: "shape_loop fl ((tid, t) # rest) a = Inr (kept, a')"
      and p: "p \<in> set kept" and n: "n \<in> set (all_nodes (snd p))"
    obtain t' where t': "shape fl t = Inr t'" using shape_total_aux(1) by blast
    show "\<exists>q \<in> set ((tid, t) # rest). \<exists>m \<in> set (all_nodes (snd q)). shape fl m = Inr n"
    proof (cases "acc t' = 0")
      case True
      with h t' have "shape_loop fl rest a = Inr (kept, a')" by simp
      with 3(2)[OF t' True] p n show ?thesis by fastforce
    next
      case False
      obtain kept' a'' where r: "shape_loop fl rest (a + acc t') = Inr (kept', a'')"
        using shape_total_aux(2) by blast
      with h t' False have kept: "kept = (tid, t') # kept'" by simp
      show ?thesis
      proof (cases "p = (tid, t')")
        case True
        with n 3(1) t' show ?thesis by fastforce
      next
        case False
        with p kept have "p \<in> set kept'" by simp
        with 3(3)[OF t' \<open>acc t' \<noteq> 0\<close>] r n show ?thesis by fastforce
      qed
    qed
  qed
qed

text \<open>
  Claim C5, as stated, fails in float arithmetic: the score that \<open>shape\<close> stores is not
  the weighted average. For a node with zero counts and the children (counts 1, score
  1.0) and (counts 2, score 2.0), \<open>shape\<close> in IEEE binary64 stores
  7505999378950826 / 2^52 (printed 1.6666666666666665), while the weighted average is
  5/3, and the float nearest to 5/3 is 7505999378950827 / 2^52.
\<close>

theorem shape_score_not_average:
  "shape ieee_ops (TaxTree 0 () 0 0 [(1::nat, TaxTree 1 () 1 0 []), (2, TaxTree 2 () 2 0 [])])
     = Inr (TaxTree 0 () (7505999378950826 / 4503599627370496) 3
              [(1, TaxTree 1 () 1 1 []), (2, TaxTree 2 () 2 2 [])])
   \<and> weighted_avg [(1::nat, TaxTree 1 () 1 1 []), (2, TaxTree 2 () 2 2 [])] = 5 / 3
   \<and> rd (5 / 3) = 7505999378950827 / 4503599627370496
   \<and> (7505999378950826 / 4503599627370496 :: rat) \<noteq> 5 / 3"
  by code_simp

text \<open>
  Claim C5, amended. Every node \<open>n\<close> of the shaped tree is the shaped form of a node \<open>m\<close>
  of the tree given to \<open>shape\<close>, with the same \<open>counts\<close>. When \<open>n\<close> has zero \<open>counts\<close> and
  nonzero \<open>acc\<close>, its score is the float sum, over its remaining children in dictionary
  order, of \<^verbatim>\<open>score * acc / acc(n)\<close> with every operation rounded, and \<open>acc(n)\<close> is the sum
  of the children's \<open>acc\<close>; in arithmetic without rounding that sum is the
  \<open>acc\<close>-weighted average of the children's scores. When \<open>n\<close> has nonzero \<open>counts\<close>, it
  keeps the score \<open>m\<close> had before shaping (the one supplied at growth time).
\<close>

theorem shape_scores:
  "(\<exists>t'. shape fl t = Inr t' \<and>
      (\<forall>n \<in> set (all_nodes t'). \<exists>m \<in> set (all_nodes t).
         shape fl m = Inr n \<and> counts n = counts m
         \<and> (counts n = 0 \<and> acc n \<noteq> 0 \<longrightarrow>
              score n = float_weighted_avg fl (items n) (acc n)
              \<and> acc n = sum_list (map (\<lambda>p. acc (snd p)) (items n)))
         \<and> (counts n \<noteq> 0 \<longrightarrow> score n = score m)))
   \<and> float_weighted_avg exact_ops kids (sum_list (map (\<lambda>p. acc (snd p)) kids))
       = weighted_avg kids"
proof
  obtain t' where t': "shape fl t = Inr t'" using shape_total_aux(1) by blast
  have "\<exists>m \<in> set (all_nodes t). shape fl m = Inr n \<and> counts n = counts m
         \<and> (counts n = 0 \<and> acc n \<noteq> 0 \<longrightarrow>
              score n = float_weighted_avg fl (items n) (acc n)
              \<and> acc n = sum_list (map (\<lambda>p. acc (snd p)) (items n)))
         \<and> (counts n \<noteq> 0 \<longrightarrow> score n = score m)" if "n \<in> set (all_nodes t')" for n
  proof -
    from that t' shape_nodes_aux(1)[of fl t] obtain m where
      m: "m \<in> set (all_nodes t)" "shape fl m = Inr n"
      by blast
    from shape_score[OF m(2)] m show ?thesis by auto
  qed
  with t' show "\<exists>t'. shape fl t = Inr t' \<and>
      (\<forall>n \<in> set (all_nodes t'). \<exists>m \<in> set (all_nodes t).
         shape fl m = Inr n \<and> counts n = counts m
         \<and> (counts n = 0 \<and> acc n \<noteq> 0 \<longrightarrow>
              score n = float_weighted_avg fl (items n) (acc n)
              \<and> acc n = sum_list (map (\<lambda>p. acc (snd p)) (items n)))
         \<and> (counts n \<noteq> 0 \<longrightarrow> score n = score m))"
    by blast
next
  show "float_weighted_avg exact_ops kids (sum_list (map (\<lambda>p. acc (snd p)) kids))
       = weighted_avg kids"
    by (rule float_weighted_avg_exact)
qed

theorem shape_scores_witness:
  "shape ieee_ops (TaxTree 0 () 0 0 [(1::nat, TaxTree 1 () 1 0 []), (2, TaxTree 2 () 2 0 [])])
     = Inr (TaxTree 0 () (7505999378950826 / 4503599627370496) 3
              [(1, TaxTree 1 () 1 1 []), (2, TaxTree 2 () 2 2 [])])
   \<and> float_weighted_avg ieee_ops [(1::nat, TaxTree 1 () 1 1 []), (2, TaxTree 2 () 2 2 [])] 3
     = 7505999378950826 / 4503599627370496
   \<and> float_weighted_avg exact_ops [(1::nat, TaxTree 1 () 1 1 []), (2, TaxTree 2 () 2 2 [])] 3
     = 5 / 3"
proof -
  have e: "shape ieee_ops
       (TaxTree 0 () 0 0 [(1::nat, TaxTree 1 () 1 0 []), (2, TaxTree 2 () 2 0 [])])
     = Inr (TaxTree 0 () (7505999378950826 / 4503599627370496) 3
              [(1, TaxTree 1 () 1 1 []), (2, TaxTree 2 () 2 2 [])])"
    by code_simp
  have w: "weighted_avg [(1::nat, TaxTree 1 () 1 1 []), (2, TaxTree 2 () 2 2 [])] = 5 / 3"
    by (simp add: weighted_avg_def)
  from shape_scores
    [of ieee_ops "TaxTree 0 () 0 0 [(1::nat, TaxTree 1 () 1 0 []), (2, TaxTree 2 () 2 0 [])]"
        "[(1::nat, TaxTree 1 () 1 1 []), (2, TaxTree 2 () 2 2 [])]"] e w
  show ?thesis by auto
qed

section \<open>Pruning\<close>

lemma total_counts_leaf: "items t = [] \<Longrightarrow> total_counts t = counts t"
  by (cases t) simp

lemma nonneg_counts_ge: "nonneg_counts t \<Longrightarrow> 0 \<le> counts t"
  by (cases t) simp

lemma prune_total_aux:
  "\<exists>res. prune fl ops min_taxa min_rank collapse (t :: ('t, 'r, 'f) taxtree) = Inr res"
  "\<exists>res. prune_loop fl ops min_taxa min_rank collapse r
            (kids :: ('t \<times> ('t, 'r, 'f) taxtree) list) st = Inr res"
proof (induction fl ops min_taxa min_rank collapse t and fl ops min_taxa min_rank collapse r kids st
       rule: prune_prune_loop.induct)
  case (1 fl ops min_taxa min_rank collapse c r s a kids)
  then show ?case by (auto split: sum.splits prod.splits)
next
  case (2 fl ops min_taxa min_rank collapse r st)
  show ?case by (cases st) simp
next
  case (3 fl ops min_taxa min_rank collapse r tid t rest c s a)
  obtain br t' where sub:
    "(if items t \<noteq> [] then prune fl ops min_taxa min_rank collapse t else Inr (False, t))
       = Inr (br, t')"
    using 3(1) by (cases "items t = []") auto
  show ?case
  proof (cases br)
    case True
    from 3(2)[OF sub refl True] sub True show ?thesis
      by (auto simp del: prune.simps)
  next
    case nbr: False
    show ?thesis
    proof (cases "prune_candidate ops min_taxa min_rank r t'")
      case cand: True
      show ?thesis
      proof (cases collapse)
        case col: True
        show ?thesis
        proof (cases "c + counts t' = 0")
          case True
          then have z: "\<not> c + counts t' \<noteq> 0" by simp
          from 3(4)[OF sub refl nbr cand col refl z] sub nbr cand col True show ?thesis
            by (auto simp del: prune.simps)
        next
          case False
          then have d: "py_div fl (fadd fl (fmul fl s (fint fl c)) (fmul fl (score t') (fint fl (counts t'))))
               (c + counts t')
             = Inr (fdiv fl (fadd fl (fmul fl s (fint fl c)) (fmul fl (score t') (fint fl (counts t')))) (fint fl (c + counts t')))"
            by (simp add: py_div_def)
          from 3(3)[OF sub refl nbr cand col refl False d] sub nbr cand col False d
          show ?thesis
            by (auto simp del: prune.simps)
        qed
      next
        case False
        from 3(5)[OF sub refl nbr cand False] sub nbr cand False show ?thesis
          by (auto simp del: prune.simps)
      qed
    next
      case False
      from 3(6)[OF sub refl nbr False] sub nbr False show ?thesis
        by (auto simp del: prune.simps)
    qed
  qed
qed

lemma prune_loop_Cons:
  assumes "(if items t \<noteq> [] then prune fl ops min_taxa min_rank collapse t
            else Inr (False, t)) = Inr (br, t')"
  shows "prune_loop fl ops min_taxa min_rank collapse r ((tid, t) # rest) (c, s, a) =
     (if br \<or> \<not> prune_candidate ops min_taxa min_rank r t' then
        (case prune_loop fl ops min_taxa min_rank collapse r rest (c, s, a) of
           Inl e \<Rightarrow> Inl e
         | Inr (kept, st') \<Rightarrow> Inr ((tid, t') # kept, st'))
      else if collapse then
        (if c + counts t' \<noteq> 0 then
           prune_loop fl ops min_taxa min_rank collapse r rest
             (c + counts t',
              fdiv fl (fadd fl (fmul fl s (fint fl c)) (fmul fl (score t') (fint fl (counts t'))))
                (fint fl (c + counts t')), a)
         else prune_loop fl ops min_taxa min_rank collapse r rest (c, s, a))
      else prune_loop fl ops min_taxa min_rank collapse r rest
             (c, s, if a > counts t' then a - counts t' else 0))"
  apply (subst prune_loop.simps)
  apply (simp only: assms)
  apply (simp add: py_div_def Let_def)
  done

lemma prune_collapse_aux:
  "collapse \<longrightarrow> nonneg_counts (t :: ('t, 'r, 'f) taxtree) \<longrightarrow>
     (\<forall>b t'. prune fl ops min_taxa min_rank collapse t = Inr (b, t') \<longrightarrow>
        total_counts t' = total_counts t \<and> nonneg_counts t' \<and> (\<not> b \<longrightarrow> items t' = []))"
  "collapse \<longrightarrow> 0 \<le> fst st \<longrightarrow>
     list_all (\<lambda>p. nonneg_counts (snd p)) (kids :: ('t \<times> ('t, 'r, 'f) taxtree) list) \<longrightarrow>
     (\<forall>kept c' s' a'.
        prune_loop fl ops min_taxa min_rank collapse r kids st = Inr (kept, c', s', a') \<longrightarrow>
        c' + sum_list (map (\<lambda>p. total_counts (snd p)) kept)
          = fst st + sum_list (map (\<lambda>p. total_counts (snd p)) kids)
        \<and> 0 \<le> c' \<and> list_all (\<lambda>p. nonneg_counts (snd p)) kept)"
proof (induction fl ops min_taxa min_rank collapse t and fl ops min_taxa min_rank collapse r kids st
       rule: prune_prune_loop.induct)
  case (1 fl ops min_taxa min_rank collapse c r s a kids)
  show ?case
  proof (intro impI allI)
    fix b t'
    assume col: collapse and nn: "nonneg_counts (TaxTree c r s a kids)"
      and run: "prune fl ops min_taxa min_rank collapse (TaxTree c r s a kids) = Inr (b, t')"
    from run obtain kept c' s' a' where
      r: "prune_loop fl ops min_taxa min_rank collapse r kids (c, s, a) = Inr (kept, c', s', a')"
      and t': "t' = TaxTree c' r s' a' kept" and b: "b = (kept \<noteq> [])"
      by (auto split: sum.splits)
    from 1 col nn r have
      "c' + sum_list (map (\<lambda>p. total_counts (snd p)) kept)
         = c + sum_list (map (\<lambda>p. total_counts (snd p)) kids)"
      "0 \<le> c'" "list_all (\<lambda>p. nonneg_counts (snd p)) kept"
      by fastforce+
    with t' b show "total_counts t' = total_counts (TaxTree c r s a kids)
        \<and> nonneg_counts t' \<and> (\<not> b \<longrightarrow> items t' = [])"
      by simp
  qed
next
  case (2 fl ops min_taxa min_rank collapse r st)
  show ?case by (cases st) auto
next
  case (3 fl ops min_taxa min_rank collapse r tid t rest c s a)
  show ?case
  proof (intro impI allI)
    fix kept c' s' a'
    assume col: collapse and c0: "0 \<le> fst (c, s, a)"
      and nn: "list_all (\<lambda>p. nonneg_counts (snd p)) ((tid, t) # rest)"
      and run: "prune_loop fl ops min_taxa min_rank collapse r ((tid, t) # rest) (c, s, a)
                  = Inr (kept, c', s', a')"
    obtain br t' where sub:
      "(if items t \<noteq> [] then prune fl ops min_taxa min_rank collapse t else Inr (False, t))
         = Inr (br, t')"
      using prune_total_aux(1)[of fl ops min_taxa min_rank collapse t]
      by (cases "items t = []") auto
    have t': "total_counts t' = total_counts t" "nonneg_counts t'" "\<not> br \<longrightarrow> items t' = []"
      using 3(1) sub col nn by (auto split: if_splits)
    have nnr: "list_all (\<lambda>p. nonneg_counts (snd p)) rest" using nn by simp
    have cnn: "0 \<le> c" using c0 by simp
    let ?tot = "\<lambda>ks. sum_list (map (\<lambda>p. total_counts (snd p)) ks)"
    let ?nn = "list_all (\<lambda>p. nonneg_counts (snd p))"
    show "c' + ?tot kept = fst (c, s, a) + ?tot ((tid, t) # rest) \<and> 0 \<le> c' \<and> ?nn kept"
    proof (cases "br \<or> \<not> prune_candidate ops min_taxa min_rank r t'")
      case True
      from run True obtain kept' where
        r: "prune_loop fl ops min_taxa min_rank collapse r rest (c, s, a) = Inr (kept', c', s', a')"
        and k: "kept = (tid, t') # kept'"
        unfolding prune_loop_Cons[OF sub] by (auto split: sum.splits)
      have ih: "c' + ?tot kept' = c + ?tot rest \<and> 0 \<le> c' \<and> ?nn kept'"
      proof (cases br)
        case True
        from 3(2)[OF sub refl True, rule_format, OF col _ nnr r] cnn show ?thesis by simp
      next
        case False
        with \<open>br \<or> \<not> prune_candidate ops min_taxa min_rank r t'\<close>
        have nc: "\<not> prune_candidate ops min_taxa min_rank r t'" by simp
        from 3(6)[OF sub refl False nc, rule_format, OF col _ nnr r] cnn show ?thesis by simp
      qed
      with k t' show ?thesis by simp
    next
      case False
      then have nbr: "\<not> br" and cand: "prune_candidate ops min_taxa min_rank r t'" by simp_all
      have leaf: "total_counts t = counts t'" using t' nbr total_counts_leaf[of t'] by simp
      have ct: "0 \<le> counts t'" using t' nonneg_counts_ge by blast
      show ?thesis
      proof (cases "c + counts t' = 0")
        case True
        then have z: "\<not> c + counts t' \<noteq> 0" by simp
        from run False col True have
          r: "prune_loop fl ops min_taxa min_rank collapse r rest (c, s, a) = Inr (kept, c', s', a')"
          unfolding prune_loop_Cons[OF sub] by simp
        from 3(4)[OF sub refl nbr cand col refl z, rule_format, OF col _ nnr r] cnn
        have "c' + ?tot kept = c + ?tot rest \<and> 0 \<le> c' \<and> ?nn kept" by simp
        moreover from True cnn ct have "counts t' = 0" by linarith
        ultimately show ?thesis using leaf by simp
      next
        case nz: False
        let ?s' = "fdiv fl (fadd fl (fmul fl s (fint fl c)) (fmul fl (score t') (fint fl (counts t'))))
                (fint fl (c + counts t'))"
        have d: "py_div fl (fadd fl (fmul fl s (fint fl c)) (fmul fl (score t') (fint fl (counts t')))) (c + counts t')
             = Inr ?s'"
          using nz by (simp add: py_div_def)
        from run False col nz have
          r: "prune_loop fl ops min_taxa min_rank collapse r rest (c + counts t', ?s', a)
                 = Inr (kept, c', s', a')"
          unfolding prune_loop_Cons[OF sub] by simp
        have pos: "0 \<le> fst (c + counts t', ?s', a)" using cnn ct by simp
        from 3(3)[OF sub refl nbr cand col refl nz d, rule_format, OF col pos nnr r]
        have "c' + ?tot kept = c + counts t' + ?tot rest \<and> 0 \<le> c' \<and> ?nn kept" by simp
        then show ?thesis using leaf by simp
      qed
    qed
  qed
qed

text \<open>
  Claim C2. For every single-sample tree (\<open>counts\<close> non-negative at every node, as the
  data model has it), every threshold \<open>min_taxa\<close> and every \<open>min_rank\<close>, \<open>prune\<close> with
  \<open>collapse\<close> enabled returns, and the total of \<open>counts\<close> over the surviving tree equals
  the total before pruning.
\<close>

theorem prune_collapse_conserves_counts:
  assumes "nonneg_counts t"
  shows "\<exists>b t'. prune fl ops min_taxa min_rank True t = Inr (b, t')
           \<and> total_counts t' = total_counts t"
proof -
  obtain b t' where r: "prune fl ops min_taxa min_rank True t = Inr (b, t')"
    using prune_total_aux(1)[of fl ops min_taxa min_rank True t] by auto
  with prune_collapse_aux(1)[of True t fl ops min_taxa min_rank] assms show ?thesis by blast
qed

theorem prune_collapse_conserves_counts_witness:
  "nonneg_counts (TaxTree 1 (0::nat) (2::rat) 0
       [(1::nat, TaxTree 2 1 3 0 [(4, TaxTree 1 2 5 0 [])]), (2, TaxTree 5 1 9 0 [])])
   \<and> prune ieee_ops \<lparr>rank_bool = (\<lambda>_. True), rank_lt = (<), rank_le = (\<le>)\<rparr> 3 None True
       (TaxTree 1 (0::nat) 2 0
         [(1::nat, TaxTree 2 1 3 0 [(4, TaxTree 1 2 5 0 [])]), (2, TaxTree 5 1 9 0 [])])
     = Inr (True, TaxTree 1 0 2 0
              [(1, TaxTree 3 1 (8256599316845909 / 2251799813685248) 0 []),
               (2, TaxTree 5 1 9 0 [])])
   \<and> total_counts (TaxTree 1 (0::nat) (2::rat) 0
         [(1::nat, TaxTree 3 1 (8256599316845909 / 2251799813685248) 0 []),
          (2, TaxTree 5 1 9 0 [])]) = 9
   \<and> total_counts (TaxTree 1 (0::nat) (2::rat) 0
       [(1::nat, TaxTree 2 1 3 0 [(4, TaxTree 1 2 5 0 [])]), (2, TaxTree 5 1 9 0 [])]) = 9"
proof -
  have e: "prune ieee_ops \<lparr>rank_bool = (\<lambda>_. True), rank_lt = (<), rank_le = (\<le>)\<rparr> 3 None True
       (TaxTree 1 (0::nat) 2 0
         [(1::nat, TaxTree 2 1 3 0 [(4, TaxTree 1 2 5 0 [])]), (2, TaxTree 5 1 9 0 [])])
     = Inr (True, TaxTree 1 0 2 0
              [(1, TaxTree 3 1 (8256599316845909 / 2251799813685248) 0 []),
               (2, TaxTree 5 1 9 0 [])])"
    by code_simp
  have n: "nonneg_counts (TaxTree 1 (0::nat) (2::rat) 0
       [(1::nat, TaxTree 2 1 3 0 [(4, TaxTree 1 2 5 0 [])]), (2, TaxTree 5 1 9 0 [])])"
    by simp
  from prune_collapse_conserves_counts
    [OF n, of ieee_ops "\<lparr>rank_bool = (\<lambda>_. True), rank_lt = (<), rank_le = (\<le>)\<rparr>" 3 None]
    e n
  show ?thesis by simp
qed

section \<open>Division by zero\<close>

text \<open>
  Claim C10. Neither \<open>shape\<close> nor \<open>prune\<close> ever ends in \<open>ZeroDivisionError\<close>: both return a
  tree on every input, because \<open>shape\<close> divides by \<^verbatim>\<open>self.acc\<close> only under \<^verbatim>\<open>if self.acc\<close>
  and \<open>prune\<close> divides by \<^verbatim>\<open>collapsed_counts\<close> only under \<^verbatim>\<open>if collapsed_counts\<close>. When
  the parent's \<open>counts\<close> and the counts of a child to collapse are both zero, the loop
  goes on without the child and with the parent's \<open>counts\<close> and \<open>score\<close> as they were.
\<close>

theorem score_divisions_never_by_zero:
  "(\<exists>t'. shape fl t = Inr t')
   \<and> (\<exists>b t'. prune fl ops min_taxa min_rank collapse t = Inr (b, t'))
   \<and> ((if items k \<noteq> [] then prune fl ops min_taxa min_rank True k else Inr (False, k))
          = Inr (False, k')
        \<and> prune_candidate ops min_taxa min_rank r k' \<and> counts k' = 0 \<longrightarrow>
      prune_loop fl ops min_taxa min_rank True r ((tid, k) # rest) (0, s, a)
        = prune_loop fl ops min_taxa min_rank True r rest (0, s, a))"
proof (intro conjI impI)
  show "\<exists>t'. shape fl t = Inr t'" by (rule shape_total_aux(1))
  show "\<exists>b t'. prune fl ops min_taxa min_rank collapse t = Inr (b, t')"
    using prune_total_aux(1)[of fl ops min_taxa min_rank collapse t] by auto
next
  assume h: "(if items k \<noteq> [] then prune fl ops min_taxa min_rank True k else Inr (False, k))
          = Inr (False, k')
        \<and> prune_candidate ops min_taxa min_rank r k' \<and> counts k' = 0"
  then have sub: "(if items k \<noteq> [] then prune fl ops min_taxa min_rank True k else Inr (False, k))
          = Inr (False, k')" by blast
  show "prune_loop fl ops min_taxa min_rank True r ((tid, k) # rest) (0, s, a)
        = prune_loop fl ops min_taxa min_rank True r rest (0, s, a)"
    unfolding prune_loop_Cons[OF sub] using h by simp
qed

theorem score_divisions_never_by_zero_witness:
  "shape ieee_ops (TaxTree 0 (0::nat) 4 0 [(1::nat, TaxTree 0 1 5 0 [])])
     = Inr (TaxTree 0 0 4 0 [])
   \<and> prune ieee_ops \<lparr>rank_bool = (\<lambda>_. True), rank_lt = (<), rank_le = (\<le>)\<rparr> 1 None True
       (TaxTree 0 (0::nat) 4 0 [(1::nat, TaxTree 0 1 5 0 [])])
     = Inr (False, TaxTree 0 0 4 0 [])
   \<and> prune_candidate \<lparr>rank_bool = (\<lambda>_. True), rank_lt = (<), rank_le = (\<le>)\<rparr> 1 None 0
        (TaxTree 0 (1::nat) 5 0 ([] :: (nat \<times> (nat, nat, rat) taxtree) list))
   \<and> prune_loop ieee_ops \<lparr>rank_bool = (\<lambda>_. True), rank_lt = (<), rank_le = (\<le>)\<rparr> 1 None
        True 0 [(1::nat, TaxTree 0 (1::nat) 5 0 [])] (0, 4, 0) = Inr ([], 0, 4, 0)"
  using score_divisions_never_by_zero
    [of ieee_ops "TaxTree 0 (0::nat) 4 0 [(1::nat, TaxTree 0 1 5 0 [])]"
        "\<lparr>rank_bool = (\<lambda>_. True), rank_lt = (<), rank_le = (\<le>)\<rparr>" 1 None True
        "TaxTree 0 (1::nat) 5 0 []" "TaxTree 0 (1::nat) 5 0 []" 0 1 "[]" 4 0]
  by (simp add: prune_candidate_def py_div_def)

section \<open>Growth\<close>

lemma grow_new:
  assumes "taxid \<notin> set (path_or_empty path)"
  shows "grow cfg taxonomy abundances scores taxid path self =
     setitem self taxid
       (fold (\<lambda>child n. grow cfg taxonomy (Some (abundances_or_default cfg abundances))
                 (Some (scores_or_empty scores)) child (Some (path_or_empty path @ [taxid])) n)
          (case map_of (children taxonomy) taxid of None \<Rightarrow> [] | Some cs \<Rightarrow> cs)
          (TaxTree (dict_get (abundances_or_default cfg abundances) taxid 0)
             (get_rank taxonomy taxid)
             (dict_get (scores_or_empty scores) taxid (NO_SCORE cfg)) 0 []))"
proof (cases "map_of (children taxonomy) taxid")
  case None
  with assms show ?thesis by (subst grow.simps) (simp add: Let_def)
next
  case (Some cs)
  with assms show ?thesis by (subst grow.simps) (simp add: Let_def)
qed

lemma grow_old:
  "taxid \<in> set (path_or_empty path) \<Longrightarrow>
   grow cfg taxonomy abundances scores taxid path self = self"
  by (subst grow.simps) (simp add: Let_def)

lemma set_paths: "set (paths t) = (\<Union>p \<in> set (items t). entry_paths p)"
  by (cases t) (auto simp: entry_paths_def)

lemma set_update_subset: "set (AList.update k v kids) \<subseteq> insert (k, v) (set kids)"
  by (induction kids) auto

lemma paths_setitem:
  "set (paths (setitem self k v)) \<subseteq> set (paths self) \<union> entry_paths (k, v)"
proof -
  have "set (paths (setitem self k v)) = (\<Union>p \<in> set (AList.update k v (items self)). entry_paths p)"
    by (subst set_paths) (simp add: setitem_def)
  also have "\<dots> \<subseteq> (\<Union>p \<in> insert (k, v) (set (items self)). entry_paths p)"
    using set_update_subset[of k v "items self"] by blast
  also have "\<dots> = set (paths self) \<union> entry_paths (k, v)"
    by (simp add: set_paths[of self] Un_commute)
  finally show ?thesis .
qed

lemma grow_avoids:
  "avoids (path_or_empty path) (self :: ('t, 'r, 'f) taxtree) \<Longrightarrow>
   avoids (path_or_empty path) (grow cfg taxonomy abundances scores taxid path self)"
proof (induction cfg taxonomy abundances scores taxid path self rule: grow.induct)
  case (1 cfg taxonomy abundances scores taxid path self)
  let ?path = "path_or_empty path"
  show ?case
  proof (cases "taxid \<in> set ?path")
    case True
    with 1(2) show ?thesis by (subst grow.simps) simp
  next
    case False
    let ?ab = "abundances_or_default cfg abundances"
    let ?sc = "scores_or_empty scores"
    let ?node = "TaxTree (dict_get ?ab taxid 0) (get_rank taxonomy taxid)
                         (dict_get ?sc taxid (NO_SCORE cfg)) 0 []"
    let ?step = "\<lambda>child n. grow cfg taxonomy (Some ?ab) (Some ?sc)
                                                child (Some (?path @ [taxid])) n"
    let ?node' = "case map_of (children taxonomy) taxid of
                           None \<Rightarrow> ?node
                         | Some cs \<Rightarrow> fold ?step cs ?node"
    have g: "grow cfg taxonomy abundances scores taxid path self = setitem self taxid ?node'"
      using False by (subst grow.simps) (simp add: Let_def)
    have n0: "avoids (?path @ [taxid]) ?node" by (simp add: avoids_def)
    have n': "avoids (?path @ [taxid]) ?node'"
    proof (cases "map_of (children taxonomy) taxid")
      case None
      with n0 show ?thesis by simp
    next
      case (Some cs)
      have "avoids (?path @ [taxid]) (fold ?step cs ?node)"
      proof (rule fold_invariant[where Q = "\<lambda>x. x \<in> set cs"])
        show "\<And>x. x \<in> set cs \<Longrightarrow> x \<in> set cs" .
        show "avoids (?path @ [taxid]) ?node" by (rule n0)
        fix x and s :: "('t, 'r, 'f) taxtree"
        assume "x \<in> set cs" "avoids (?path @ [taxid]) s"
        with 1(1)[OF refl refl refl False refl Some, of x s]
        show "avoids (?path @ [taxid]) (?step x s)" by (simp add: path_or_empty_def)
      qed
      with Some show ?thesis by simp
    qed
    define nd where "nd = ?node'"
    have nd: "avoids (?path @ [taxid]) nd" using n' by (simp add: nd_def)
    have "avoids ?path (setitem self taxid nd)"
      unfolding avoids_def
    proof
      fix p assume "p \<in> set (paths (setitem self taxid nd))"
      with paths_setitem[of self taxid nd]
      have "p \<in> set (paths self) \<or> p \<in> entry_paths (taxid, nd)" by blast
      then show "distinct p \<and> set p \<inter> set ?path = {}"
      proof
        assume "p \<in> set (paths self)"
        with 1(2) show ?thesis by (simp add: avoids_def)
      next
        assume "p \<in> entry_paths (taxid, nd)"
        then consider "p = [taxid]" | q where "p = taxid # q" "q \<in> set (paths nd)"
          by (auto simp: entry_paths_def)
        then show ?thesis
        proof cases
          case 1
          with False show ?thesis by simp
        next
          case 2
          with nd have "distinct q" "set q \<inter> set (?path @ [taxid]) = {}"
            by (auto simp: avoids_def)
          with 2 False show ?thesis by auto
        qed
      qed
    qed
    with g show ?thesis by (simp add: nd_def)
  qed
qed

text \<open>
  Claim C3. \<open>grow\<close> is a total function: for every taxonomy, whatever its \<^verbatim>\<open>children\<close>
  dictionary holds (self-references and back-edges included), the call returns a tree,
  which is finite as every value of the tree type is. In the tree grown from an empty
  container, no root-to-node path holds a taxid twice.
\<close>

theorem grow_no_repeated_taxid:
  "\<forall>p \<in> set (paths (grow cfg taxonomy abundances scores taxid None (TaxTree c r s a []))).
     distinct p"
  using grow_avoids[of None "TaxTree c r s a []" cfg taxonomy abundances scores taxid]
  by (simp add: avoids_def path_or_empty_def)

theorem grow_no_repeated_taxid_witness:
  "paths (grow \<lparr>ROOT = 1::nat, NO_SCORE = 0\<rparr>
            \<lparr>children = [(1, [2, 3, 1]), (2, [1, 4, 2]), (4, [3])], get_rank = (\<lambda>_. ())\<rparr>
            (Some [(3, 5)]) None 1 None (TaxTree 0 () 0 0 []))
     = [[1], [1, 2], [1, 2, 4], [1, 2, 4, 3], [1, 3]]
   \<and> list_all distinct (paths (grow \<lparr>ROOT = 1::nat, NO_SCORE = 0\<rparr>
            \<lparr>children = [(1, [2, 3, 1]), (2, [1, 4, 2]), (4, [3])], get_rank = (\<lambda>_. ())\<rparr>
            (Some [(3, 5)]) None 1 None (TaxTree 0 () 0 0 [])))"
  using grow_no_repeated_taxid
    [of "\<lparr>ROOT = 1::nat, NO_SCORE = 0\<rparr>"
        "\<lparr>children = [(1, [2, 3, 1]), (2, [1, 4, 2]), (4, [3])], get_rank = (\<lambda>_. ())\<rparr>"
        "Some [(3, 5)]" None 1 0 "()" 0 0]
  by (simp add: grow.simps path_or_empty_def abundances_or_default_def scores_or_empty_def
        dict_get_def setitem_def)

lemma grow_default_abundances:
  "abundances = None \<or> abundances = Some [] \<Longrightarrow>
   grow cfg taxonomy abundances scores taxid path self
     = grow cfg taxonomy (Some [(ROOT cfg, 1)]) scores taxid path self"
  unfolding grow.simps[of cfg taxonomy abundances scores taxid path self]
    grow.simps[of cfg taxonomy "Some [(ROOT cfg, 1)]" scores taxid path self]
  by (auto simp: abundances_or_default_def)

lemma grow_attrs:
  "counts (grow cfg taxonomy abundances scores taxid path self) = counts self
   \<and> taxlevel (grow cfg taxonomy abundances scores taxid path self) = taxlevel self
   \<and> score (grow cfg taxonomy abundances scores taxid path self) = score self
   \<and> acc (grow cfg taxonomy abundances scores taxid path self) = acc self"
  by (subst (1 2 3 4) grow.simps) (simp add: Let_def setitem_def)

lemma fold_grow_attrs:
  "counts (fold (\<lambda>child n. grow cfg taxonomy abundances scores child path n) cs nd) = counts nd
   \<and> taxlevel (fold (\<lambda>child n. grow cfg taxonomy abundances scores child path n) cs nd) = taxlevel nd
   \<and> score (fold (\<lambda>child n. grow cfg taxonomy abundances scores child path n) cs nd) = score nd
   \<and> acc (fold (\<lambda>child n. grow cfg taxonomy abundances scores child path n) cs nd) = acc nd"
  by (induction cs arbitrary: nd) (simp_all add: grow_attrs)

lemma allzero_iff: "allzero t \<longleftrightarrow> counts t = 0 \<and> list_all (\<lambda>p. allzero (snd p)) (items t)"
  by (cases t) simp

lemma list_all_update:
  "list_all P kids \<Longrightarrow> P (k, v) \<Longrightarrow> list_all P (AList.update k v kids)"
  by (induction kids) auto

lemma grow_below_zero:
  "abundances_or_default cfg abundances = [(ROOT cfg, 1)] \<Longrightarrow>
   ROOT cfg \<in> set (path_or_empty path) \<Longrightarrow>
   list_all (\<lambda>p. allzero (snd p)) (items (self :: ('t, 'r, 'f) taxtree)) \<Longrightarrow>
   list_all (\<lambda>p. allzero (snd p))
     (items (grow cfg taxonomy abundances scores taxid path self))"
proof (induction cfg taxonomy abundances scores taxid path self rule: grow.induct)
  case (1 cfg taxonomy abundances scores taxid path self)
  let ?path = "path_or_empty path"
  show ?case
  proof (cases "taxid \<in> set ?path")
    case True
    with 1(4) show ?thesis by (subst grow.simps) simp
  next
    case False
    let ?ab = "abundances_or_default cfg abundances"
    let ?sc = "scores_or_empty scores"
    let ?node = "TaxTree (dict_get ?ab taxid 0) (get_rank taxonomy taxid)
                         (dict_get ?sc taxid (NO_SCORE cfg)) 0 []"
    let ?step = "\<lambda>child n. grow cfg taxonomy (Some ?ab) (Some ?sc)
                                                child (Some (?path @ [taxid])) n"
    define nd where "nd = (case map_of (children taxonomy) taxid of
                           None \<Rightarrow> ?node
                         | Some cs \<Rightarrow> fold ?step cs ?node)"
    have g: "grow cfg taxonomy abundances scores taxid path self = setitem self taxid nd"
      using False by (subst grow.simps) (simp add: Let_def nd_def)
    have ne: "taxid \<noteq> ROOT cfg" using False 1(3) by auto
    then have c0: "counts ?node = 0" using 1(2) by (simp add: dict_get_def)
    have ab: "abundances_or_default cfg (Some ?ab) = [(ROOT cfg, 1)]"
      using 1(2) by (simp add: abundances_or_default_def)
    have "counts nd = 0 \<and> list_all (\<lambda>p. allzero (snd p)) (items nd)"
    proof (cases "map_of (children taxonomy) taxid")
      case None
      with c0 show ?thesis by (simp add: nd_def)
    next
      case (Some cs)
      have "list_all (\<lambda>p. allzero (snd p)) (items (fold ?step cs ?node))"
      proof (rule fold_invariant[where Q = "\<lambda>x. x \<in> set cs"])
        show "\<And>x. x \<in> set cs \<Longrightarrow> x \<in> set cs" .
        show "list_all (\<lambda>p. allzero (snd p)) (items ?node)" by simp
        fix x and s :: "('t, 'r, 'f) taxtree"
        assume "x \<in> set cs" "list_all (\<lambda>p. allzero (snd p)) (items s)"
        with 1(1)[OF refl refl refl False refl Some, of x s] ab 1(3)
        show "list_all (\<lambda>p. allzero (snd p)) (items (?step x s))"
          by (simp add: path_or_empty_def)
      qed
      moreover have "counts (fold ?step cs ?node) = 0"
        using fold_grow_attrs[of cfg taxonomy "Some ?ab" "Some ?sc" "Some (?path @ [taxid])" cs ?node] c0
        by simp
      ultimately show ?thesis using Some by (simp add: nd_def)
    qed
    then have "allzero nd" using allzero_iff by blast
    with 1(4) have "list_all (\<lambda>p. allzero (snd p)) (AList.update taxid nd (items self))"
      by (intro list_all_update) simp_all
    with g show ?thesis by (simp add: setitem_def)
  qed
qed

lemma shape_allzero_aux:
  "allzero (t :: ('t, 'r, 'f) taxtree) \<longrightarrow> shape fl t = Inr (TaxTree 0 (taxlevel t) (score t) 0 [])"
  "list_all (\<lambda>p. allzero (snd p)) (kids :: ('t \<times> ('t, 'r, 'f) taxtree) list) \<longrightarrow>
     shape_loop fl kids a = Inr ([], a)"
proof (induction fl t and fl kids a rule: shape_shape_loop.induct)
  case (1 fl c r s a kids)
  show ?case
  proof
    assume h: "allzero (TaxTree c r s a kids)"
    then have c: "c = 0" by simp
    from 1 h have "shape_loop fl kids c = Inr ([], c)" by simp
    with c show "shape fl (TaxTree c r s a kids)
        = Inr (TaxTree 0 (taxlevel (TaxTree c r s a kids)) (score (TaxTree c r s a kids)) 0 [])"
      by simp
  qed
next
  case (2 fl a)
  show ?case by simp
next
  case (3 fl tid t rest a)
  show ?case
  proof
    assume h: "list_all (\<lambda>p. allzero (snd p)) ((tid, t) # rest)"
    then have t: "shape fl t = Inr (TaxTree 0 (taxlevel t) (score t) 0 [])" using 3(1) by simp
    from 3(2)[OF t] h have "shape_loop fl rest a = Inr ([], a)" by simp
    with t show "shape_loop fl ((tid, t) # rest) a = Inr ([], a)" by simp
  qed
qed

lemma grow_keys:
  "fst ` set (items (grow cfg taxonomy abundances scores taxid path self))
     = fst ` set (items self)
       \<union> (if taxid \<in> set (path_or_empty path) then {} else {taxid})"
proof (cases "taxid \<in> set (path_or_empty path)")
  case True
  then show ?thesis by (simp add: grow_old)
next
  case False
  then show ?thesis by (simp add: grow_new setitem_def dom_update)
qed

lemma fold_grow_keys:
  "fst ` set (items (fold (\<lambda>child n. grow cfg taxonomy abundances scores child path n) cs nd))
     = fst ` set (items nd) \<union> (set cs - set (path_or_empty path))"
  by (induction cs arbitrary: nd) (auto simp: grow_keys)

text \<open>
  Claim C9, as stated, fails: with abundances missing, \<open>grow\<close> alone does not return a
  one-node tree when the taxonomy lists a child under the root. Here the root has one
  child, and the grown tree has two nodes.
\<close>

theorem grow_default_not_one_node:
  "grow \<lparr>ROOT = 1::nat, NO_SCORE = 0::rat\<rparr>
        \<lparr>children = [(1, [2])], get_rank = (\<lambda>_. ())\<rparr>
        None None 1 None (TaxTree 0 () 0 0 [])
     = TaxTree 0 () 0 0 [(1, TaxTree 1 () 0 0 [(2, TaxTree 0 () 0 0 [])])]
   \<and> paths (TaxTree 0 () (0::rat) 0 [(1::nat, TaxTree 1 () 0 0 [(2, TaxTree 0 () 0 0 [])])])
     = [[1], [1, 2]]"
  by (simp add: grow.simps path_or_empty_def abundances_or_default_def scores_or_empty_def
        dict_get_def setitem_def)

text \<open>
  Claim C9, amended. When \<^verbatim>\<open>abundances\<close> is \<open>None\<close> or empty, \<open>grow\<close> does what it does on
  the single count of 1 at \<^verbatim>\<open>ROOT\<close>. Grown from \<^verbatim>\<open>ROOT\<close> in an empty container, the tree has
  the one root node, with \<open>counts\<close> 1; the root node has a child node for exactly the
  taxids other than \<^verbatim>\<open>ROOT\<close> that the taxonomy lists among the children of \<^verbatim>\<open>ROOT\<close>, and
  \<open>counts\<close> is 0 at every node below the root. \<open>shape\<close> turns that tree into a one-node
  tree: the root, with \<open>counts\<close> 1 and \<open>acc\<close> 1, and no children.
\<close>

theorem grow_default_then_shape:
  assumes "abundances = None \<or> abundances = Some []"
  shows "grow cfg taxonomy abundances scores taxid path self
           = grow cfg taxonomy (Some [(ROOT cfg, 1)]) scores taxid path self
       \<and> (\<exists>nd. grow cfg taxonomy abundances scores (ROOT cfg) None (TaxTree 0 r0 s0 0 [])
                  = TaxTree 0 r0 s0 0 [(ROOT cfg, nd)]
              \<and> counts nd = 1
              \<and> fst ` set (items nd) = set (kids_of taxonomy (ROOT cfg)) - {ROOT cfg}
              \<and> list_all (\<lambda>p. allzero (snd p)) (items nd))
       \<and> shape fl (grow cfg taxonomy abundances scores (ROOT cfg) None (TaxTree 0 r0 s0 0 []))
           = Inr (TaxTree 0 r0
                   (py_sum fl
                      [fdiv fl
                         (fmul fl (dict_get (scores_or_empty scores) (ROOT cfg) (NO_SCORE cfg))
                            (fint fl 1))
                         (fint fl 1)])
                   1
                   [(ROOT cfg,
                     TaxTree 1 (get_rank taxonomy (ROOT cfg))
                       (dict_get (scores_or_empty scores) (ROOT cfg) (NO_SCORE cfg)) 1 [])])"
proof -
  have first: "grow cfg taxonomy abundances scores taxid path self
           = grow cfg taxonomy (Some [(ROOT cfg, 1)]) scores taxid path self"
    using assms by (rule grow_default_abundances)
  let ?ab = "abundances_or_default cfg abundances"
  let ?sc = "scores_or_empty scores"
  let ?s = "dict_get ?sc (ROOT cfg) (NO_SCORE cfg)"
  let ?r = "get_rank taxonomy (ROOT cfg)"
  have ab: "?ab = [(ROOT cfg, 1)]" using assms by (auto simp: abundances_or_default_def)
  have ab': "abundances_or_default cfg (Some ?ab) = [(ROOT cfg, 1)]"
    using ab by (simp add: abundances_or_default_def)
  define node :: "('a, 'b, 'c) taxtree" where "node = TaxTree 1 ?r ?s 0 []"
  define cs where "cs = kids_of taxonomy (ROOT cfg)"
  define step where "step = (\<lambda>child n. grow cfg taxonomy (Some ?ab) (Some ?sc) child
                  (Some [ROOT cfg]) n)"
  define nd where "nd = fold step cs node"
  have "grow cfg taxonomy abundances scores (ROOT cfg) None (TaxTree 0 r0 s0 0 [])
          = setitem (TaxTree 0 r0 s0 0 []) (ROOT cfg) nd"
    using grow_new[of "ROOT cfg" None cfg taxonomy abundances scores "TaxTree 0 r0 s0 0 []"]
    by (simp add: path_or_empty_def nd_def step_def cs_def kids_of_def node_def ab dict_get_def)
  then have g: "grow cfg taxonomy abundances scores (ROOT cfg) None (TaxTree 0 r0 s0 0 [])
             = TaxTree 0 r0 s0 0 [(ROOT cfg, nd)]"
    by (simp add: setitem_def)
  have "list_all (\<lambda>p. allzero (snd p)) (items (fold step cs node))"
  proof (rule fold_invariant[where Q = "\<lambda>x. True"])
    show "\<And>x. x \<in> set cs \<Longrightarrow> True" by simp
    show "list_all (\<lambda>p. allzero (snd p)) (items node)" by (simp add: node_def)
    fix x and s :: "('a, 'b, 'c) taxtree"
    assume "list_all (\<lambda>p. allzero (snd p)) (items s)"
    then show "list_all (\<lambda>p. allzero (snd p)) (items (step x s))"
      using grow_below_zero[OF ab', of "Some [ROOT cfg]" s taxonomy "Some ?sc" x]
      by (simp add: path_or_empty_def step_def)
  qed
  then have kz: "list_all (\<lambda>p. allzero (snd p)) (items nd)" by (simp add: nd_def)
  have at: "counts nd = 1 \<and> taxlevel nd = ?r \<and> score nd = ?s \<and> acc nd = 0"
    using fold_grow_attrs[of cfg taxonomy "Some ?ab" "Some ?sc" "Some [ROOT cfg]" cs node]
    by (simp add: nd_def step_def node_def)
  have keys: "fst ` set (items nd) = set (kids_of taxonomy (ROOT cfg)) - {ROOT cfg}"
    using fold_grow_keys[of cfg taxonomy "Some ?ab" "Some ?sc" "Some [ROOT cfg]" cs node]
    by (simp add: nd_def step_def node_def cs_def path_or_empty_def)
  obtain kids where ndk: "nd = TaxTree 1 ?r ?s 0 kids" and kz': "list_all (\<lambda>p. allzero (snd p)) kids"
    using at kz by (cases nd) auto
  have "shape_loop fl kids 1 = Inr ([], 1)" using shape_allzero_aux(2)[of kids fl 1] kz' by simp
  then have "shape fl nd = Inr (TaxTree 1 ?r ?s 1 [])" by (simp add: ndk)
  then have "shape fl (TaxTree 0 r0 s0 0 [(ROOT cfg, nd)])
      = Inr (TaxTree 0 r0 (py_sum fl [fdiv fl (fmul fl ?s (fint fl 1)) (fint fl 1)]) 1
               [(ROOT cfg, TaxTree 1 ?r ?s 1 [])])"
    by (simp add: py_div_def)
  with g have third: "shape fl
        (grow cfg taxonomy abundances scores (ROOT cfg) None (TaxTree 0 r0 s0 0 []))
      = Inr (TaxTree 0 r0 (py_sum fl [fdiv fl (fmul fl ?s (fint fl 1)) (fint fl 1)]) 1
               [(ROOT cfg, TaxTree 1 ?r ?s 1 [])])"
    by simp
  from first g at keys kz third show ?thesis by blast
qed

theorem grow_default_then_shape_witness:
  "grow \<lparr>ROOT = 1::nat, NO_SCORE = 0::rat\<rparr>
        \<lparr>children = [(1, [2])], get_rank = (\<lambda>_. ())\<rparr>
        (Some []) None 1 None (TaxTree 0 () 0 0 [])
     = grow \<lparr>ROOT = 1::nat, NO_SCORE = 0\<rparr> \<lparr>children = [(1, [2])], get_rank = (\<lambda>_. ())\<rparr>
        (Some [(1, 1)]) None 1 None (TaxTree 0 () 0 0 [])
   \<and> grow \<lparr>ROOT = 1::nat, NO_SCORE = 0::rat\<rparr>
        \<lparr>children = [(1, [2])], get_rank = (\<lambda>_. ())\<rparr>
        (Some []) None 1 None (TaxTree 0 () 0 0 [])
     = TaxTree 0 () 0 0 [(1, TaxTree 1 () 0 0 [(2, TaxTree 0 () 0 0 [])])]
   \<and> shape ieee_ops (grow \<lparr>ROOT = 1::nat, NO_SCORE = 0\<rparr>
              \<lparr>children = [(1, [2])], get_rank = (\<lambda>_. ())\<rparr>
              (Some []) None 1 None (TaxTree 0 () 0 0 []))
     = Inr (TaxTree 0 () 0 1 [(1, TaxTree 1 () 0 1 [])])"
proof -
  have e: "py_sum ieee_ops [fdiv ieee_ops (fmul ieee_ops 0 (fint ieee_ops 1)) (fint ieee_ops 1)]
      = 0"
    by code_simp
  have g: "grow \<lparr>ROOT = 1::nat, NO_SCORE = 0::rat\<rparr>
        \<lparr>children = [(1, [2])], get_rank = (\<lambda>_. ())\<rparr>
        (Some []) None 1 None (TaxTree 0 () 0 0 [])
     = TaxTree 0 () 0 0 [(1, TaxTree 1 () 0 0 [(2, TaxTree 0 () 0 0 [])])]"
    by (simp add: grow.simps path_or_empty_def abundances_or_default_def scores_or_empty_def
        dict_get_def setitem_def)
  from grow_default_then_shape
    [of "Some []" "\<lparr>ROOT = 1::nat, NO_SCORE = 0::rat\<rparr>"
        "\<lparr>children = [(1, [2])], get_rank = (\<lambda>_. ())\<rparr>" None 1 None
        "TaxTree 0 () 0 0 []" "()" 0 ieee_ops] e g
  show ?thesis by (auto simp: scores_or_empty_def dict_get_def)
qed

section \<open>Extraction\<close>

text \<open>
  Claim C7, as stated, fails: on the chain root, A, B, C (taxids 1 to 4), \<open>get_taxa\<close> with
  \<open>mindepth = 2\<close> and \<open>maxdepth = 2\<close> records nothing, so B is not recorded. The root is
  visited with \<open>maxdepth\<close> at 1 after the decrement, and the call on the root's node, which
  receives that 1, does not enter its loop.
\<close>

theorem get_taxa_depth_window_counterexample:
  "out_abundance
     (get_taxa \<lparr>ROOT = 1::nat, NO_SCORE = 0\<rparr>
        \<lparr>out_abundance = Some [], out_accs = Some [], out_scores = Some [],
         out_ranks = Some []\<rparr>
        2 2 [] [] None False
        (TaxTree 0 () 0 0
          [(1, TaxTree 10 () 1 100
            [(2, TaxTree 20 () 2 90
              [(3, TaxTree 30 () 3 70
                [(4, TaxTree 40 () 4 40 [])])])])]))
   = Some []"
  by (simp add: Let_def)

text \<open>
  Claim C7, amended. On every four-level chain root, A, B, C, with nothing included or
  excluded and no rank filter, the node at level \<open>j\<close> (root 1, A 2, B 3, C 4) is recorded
  exactly when \<open>mindepth \<le> j\<close> and \<open>maxdepth\<close> is zero or negative or \<open>j < maxdepth\<close>, the
  recorded nodes in the order root, A, B, C. So \<open>mindepth = 2\<close> with \<open>maxdepth = 2\<close> records
  nothing, and \<open>mindepth = 3\<close> with \<open>maxdepth = 4\<close> records exactly B, and not the root, A
  or C.
\<close>

theorem get_taxa_chain:
  "get_taxa cfg out mindepth maxdepth [] [] None False
     (TaxTree c0 r0 s0 a0 [(root, TaxTree c1 r1 s1 a1 [(A, TaxTree c2 r2 s2 a2
        [(B, TaxTree c3 r3 s3 a3 [(C, TaxTree c4 r4 s4 a4 [])])])])])
   = (let out1 = (if level_recorded mindepth maxdepth 1
                  then record_taxon cfg root (TaxTree c1 r1 s1 a1 [(A, TaxTree c2 r2 s2 a2
                         [(B, TaxTree c3 r3 s3 a3 [(C, TaxTree c4 r4 s4 a4 [])])])]) out
                  else out);
          out2 = (if level_recorded mindepth maxdepth 2
                  then record_taxon cfg A (TaxTree c2 r2 s2 a2
                         [(B, TaxTree c3 r3 s3 a3 [(C, TaxTree c4 r4 s4 a4 [])])]) out1
                  else out1);
          out3 = (if level_recorded mindepth maxdepth 3
                  then record_taxon cfg B (TaxTree c3 r3 s3 a3 [(C, TaxTree c4 r4 s4 a4 [])]) out2
                  else out2)
      in if level_recorded mindepth maxdepth 4
         then record_taxon cfg C (TaxTree c4 r4 s4 a4 []) out3 else out3)
   \<and> get_taxa cfg out 2 2 [] [] None False
     (TaxTree c0 r0 s0 a0 [(root, TaxTree c1 r1 s1 a1 [(A, TaxTree c2 r2 s2 a2
        [(B, TaxTree c3 r3 s3 a3 [(C, TaxTree c4 r4 s4 a4 [])])])])]) = out
   \<and> get_taxa cfg out 3 4 [] [] None False
     (TaxTree c0 r0 s0 a0 [(root, TaxTree c1 r1 s1 a1 [(A, TaxTree c2 r2 s2 a2
        [(B, TaxTree c3 r3 s3 a3 [(C, TaxTree c4 r4 s4 a4 [])])])])])
     = record_taxon cfg B (TaxTree c3 r3 s3 a3 [(C, TaxTree c4 r4 s4 a4 [])]) out"
proof (intro conjI)
  consider "maxdepth = 1" | "maxdepth = 2" | "maxdepth = 3" | "maxdepth = 4"
    | "maxdepth \<le> 0" | "4 < maxdepth" by linarith
  then show "get_taxa cfg out mindepth maxdepth [] [] None False
     (TaxTree c0 r0 s0 a0 [(root, TaxTree c1 r1 s1 a1 [(A, TaxTree c2 r2 s2 a2
        [(B, TaxTree c3 r3 s3 a3 [(C, TaxTree c4 r4 s4 a4 [])])])])])
   = (let out1 = (if level_recorded mindepth maxdepth 1
                  then record_taxon cfg root (TaxTree c1 r1 s1 a1 [(A, TaxTree c2 r2 s2 a2
                         [(B, TaxTree c3 r3 s3 a3 [(C, TaxTree c4 r4 s4 a4 [])])])]) out
                  else out);
          out2 = (if level_recorded mindepth maxdepth 2
                  then record_taxon cfg A (TaxTree c2 r2 s2 a2
                         [(B, TaxTree c3 r3 s3 a3 [(C, TaxTree c4 r4 s4 a4 [])])]) out1
                  else out1);
          out3 = (if level_recorded mindepth maxdepth 3
                  then record_taxon cfg B (TaxTree c3 r3 s3 a3 [(C, TaxTree c4 r4 s4 a4 [])]) out2
                  else out2)
      in if level_recorded mindepth maxdepth 4
         then record_taxon cfg C (TaxTree c4 r4 s4 a4 []) out3 else out3)"
  proof cases
    case 1 then show ?thesis by (simp add: Let_def level_recorded_def)
  next
    case 2 then show ?thesis by (simp add: Let_def level_recorded_def)
  next
    case 3 then show ?thesis by (simp add: Let_def level_recorded_def)
  next
    case 4 then show ?thesis by (simp add: Let_def level_recorded_def)
  next
    case 5 then show ?thesis by (simp add: Let_def level_recorded_def)
  next
    case 6 then show ?thesis by (simp add: Let_def level_recorded_def)
  qed
qed (simp_all add: Let_def)

section \<open>Lineage\<close>

lemma case_snoc:
  "(case xs @ [x] of [] \<Rightarrow> e | _ # _ \<Rightarrow> f (butlast (xs @ [x]))) = f xs"
proof -
  obtain y ys where c: "xs @ [x] = y # ys" by (cases "xs @ [x]") simp_all
  have "(case xs @ [x] of [] \<Rightarrow> e | _ # _ \<Rightarrow> f (butlast (xs @ [x])))
          = f (butlast (xs @ [x]))"
    by (simp only: c list.case)
  then show ?thesis by (simp only: butlast_snoc)
qed

lemma trace_loop_Cons_fail:
  assumes "items t \<noteq> []"
    and "\<not> (target \<in> set (map fst (items t)) \<and> target \<noteq> ROOT cfg)"
    and "trace cfg target t (nodes @ [tid]) = Inr (False, nodes @ [tid])"
  shows "trace_loop cfg target ((tid, t) # rest) nodes = trace_loop cfg target rest nodes"
proof -
  have "trace_loop cfg target ((tid, t) # rest) nodes
      = (case nodes @ [tid] of [] \<Rightarrow> Inl IndexError
         | _ # _ \<Rightarrow> trace_loop cfg target rest (butlast (nodes @ [tid])))"
    using assms by (subst trace_loop.simps) (auto simp del: butlast_snoc)
  then show ?thesis by (simp only: case_snoc)
qed

lemma trace_aux:
  "\<exists>found nodes'. trace cfg target (t :: ('t, 'r, 'f) taxtree) nodes = Inr (found, nodes')
      \<and> (\<not> found \<longrightarrow> nodes' = nodes)"
  "\<exists>found nodes'. trace_loop cfg target (kids :: ('t \<times> ('t, 'r, 'f) taxtree) list) nodes
        = Inr (found, nodes')
      \<and> (\<not> found \<longrightarrow> nodes' = nodes)"
proof (induction cfg target t nodes and cfg target kids nodes rule: trace_trace_loop.induct)
  case (1 cfg target c r s a kids nodes)
  then show ?case by simp
next
  case (2 cfg target nodes)
  show ?case by auto
next
  case (3 cfg target tid t rest nodes)
  show ?case
  proof (cases "items t \<noteq> []")
    case False
    with 3(3) show ?thesis by auto
  next
    case ne: True
    show ?thesis
    proof (cases "target \<in> set (map fst (items t)) \<and> target \<noteq> ROOT cfg")
      case True
      with ne show ?thesis by auto
    next
      case False
      from 3(1)[OF ne False] obtain found nodes' where
        tr: "trace cfg target t (nodes @ [tid]) = Inr (found, nodes')"
        and un: "\<not> found \<longrightarrow> nodes' = nodes @ [tid]" by blast
      show ?thesis
      proof (cases found)
        case True
        with ne False tr show ?thesis by auto
      next
        case nf: False
        with un have n': "nodes' = nodes @ [tid]" by simp
        then have "nodes' \<noteq> []" by simp
        then obtain x xs where cons: "nodes' = x # xs" by (cases nodes') blast+
        have bl: "butlast nodes' = nodes" using n' by simp
        from 3(2)[OF ne False tr refl nf cons] bl
        obtain f2 n2 where l: "trace_loop cfg target rest nodes = Inr (f2, n2)"
          "\<not> f2 \<longrightarrow> n2 = nodes"
          by auto
        have "trace cfg target t (nodes @ [tid]) = Inr (False, nodes @ [tid])"
          using tr nf n' by simp
        then have "trace_loop cfg target ((tid, t) # rest) nodes
            = trace_loop cfg target rest nodes"
          using ne False by (intro trace_loop_Cons_fail)
        with l show ?thesis by auto
      qed
    qed
  qed
qed

lemma trace_total:
  "\<exists>found nodes'. trace cfg target t nodes = Inr (found, nodes')"
  using trace_aux(1)[of cfg target t nodes] by blast

lemma lineage_loop_unknown:
  "tid \<noteq> ROOT cfg \<Longrightarrow> tid \<notin> dom parents \<Longrightarrow>
   lineage_loop cfg str self parents (tid # rest) (outp, nodes_traced)
     = lineage_loop cfg str self parents rest (outp @ warn_unknown str tid, nodes_traced)"
  by simp

lemma lineage_loop_step:
  "\<exists>sfx tr. (\<forall>rest out2. lineage_loop cfg str self parents (tid # rest) (out2, nodes_traced)
      = lineage_loop cfg str self parents rest (out2 @ sfx, tr))
    \<and> (\<forall>k. k \<noteq> tid \<longrightarrow> map_of tr k = map_of nodes_traced k)"
proof -
  obtain found nodes' where t: "trace cfg tid self [] = Inr (found, nodes')"
    using trace_total[of cfg tid self "[]"] by blast
  consider "tid = ROOT cfg" | "tid \<noteq> ROOT cfg" "tid \<in> dom parents" found
    | "tid \<noteq> ROOT cfg" "tid \<in> dom parents" "\<not> found"
    | "tid \<noteq> ROOT cfg" "tid \<notin> dom parents" by blast
  then show ?thesis
  proof cases
    case 1
    have "lineage_loop cfg str self parents (tid # rest) (out2, nodes_traced)
      = lineage_loop cfg str self parents rest
          (out2 @ [], AList.update (ROOT cfg) [ROOT cfg] nodes_traced)" for out2 rest
      using 1 by simp
    moreover have "\<forall>k. k \<noteq> tid \<longrightarrow>
        map_of (AList.update (ROOT cfg) [ROOT cfg] nodes_traced) k = map_of nodes_traced k"
      using 1 by (simp add: update_conv')
    ultimately show ?thesis by blast
  next
    case 2
    have "lineage_loop cfg str self parents (tid # rest) (out2, nodes_traced)
      = lineage_loop cfg str self parents rest
          (out2 @ [], AList.update tid nodes' nodes_traced)" for out2 rest
      using 2 t by simp
    moreover have "\<forall>k. k \<noteq> tid \<longrightarrow>
        map_of (AList.update tid nodes' nodes_traced) k = map_of nodes_traced k"
      by (simp add: update_conv')
    ultimately show ?thesis by blast
  next
    case 3
    have "lineage_loop cfg str self parents (tid # rest) (out2, nodes_traced)
      = lineage_loop cfg str self parents rest
          (out2 @ warn_tracing str tid, nodes_traced)" for out2 rest
      using 3 t by simp
    then show ?thesis by blast
  next
    case 4
    have "lineage_loop cfg str self parents (tid # rest) (out2, nodes_traced)
      = lineage_loop cfg str self parents rest
          (out2 @ warn_unknown str tid, nodes_traced)" for out2 rest
      using 4 by simp
    then show ?thesis by blast
  qed
qed

lemma lineage_loop_total:
  "\<exists>sfx tr. lineage_loop cfg str self parents taxids (outp, nodes_traced)
      = Inr (outp @ sfx, tr)"
proof (induction taxids arbitrary: outp nodes_traced)
  case Nil
  have "lineage_loop cfg str self parents [] (outp, nodes_traced)
      = Inr (outp @ [], nodes_traced)" by simp
  then show ?case by blast
next
  case (Cons tid rest)
  obtain sfx tr where s: "lineage_loop cfg str self parents (tid # rest) (outp, nodes_traced)
      = lineage_loop cfg str self parents rest (outp @ sfx, tr)"
    using lineage_loop_step[of cfg str self parents tid nodes_traced] by blast
  from Cons[of "outp @ sfx" tr] obtain sfx' tr' where
    "lineage_loop cfg str self parents rest (outp @ sfx, tr) = Inr ((outp @ sfx) @ sfx', tr')"
    by blast
  with s have "lineage_loop cfg str self parents (tid # rest) (outp, nodes_traced)
      = Inr (outp @ (sfx @ sfx'), tr')" by simp
  then show ?case by blast
qed

lemma lineage_loop_warns:
  assumes "tid \<noteq> ROOT cfg" "tid \<notin> dom parents" "tid \<in> set taxids"
    and "lineage_loop cfg str self parents taxids (outp, nodes_traced) = Inr (lg, tr)"
  shows "\<exists>pre post. lg = pre @ warn_unknown str tid @ post"
  using assms(3,4)
proof (induction taxids arbitrary: outp nodes_traced)
  case Nil
  then show ?case by simp
next
  case (Cons x rest)
  show ?case
  proof (cases "x = tid")
    case True
    with Cons(3) assms(1,2) have
      r: "lineage_loop cfg str self parents rest (outp @ warn_unknown str tid, nodes_traced)
           = Inr (lg, tr)"
      using lineage_loop_unknown[OF assms(1,2), of str self rest outp nodes_traced] by simp
    obtain sfx tr' where "lineage_loop cfg str self parents rest
        (outp @ warn_unknown str tid, nodes_traced)
        = Inr ((outp @ warn_unknown str tid) @ sfx, tr')"
      using lineage_loop_total by blast
    with r have "lg = outp @ warn_unknown str tid @ sfx" by simp
    then show ?thesis by blast
  next
    case False
    with Cons(2) have mem: "tid \<in> set rest" by simp
    obtain sfx tr' where s: "lineage_loop cfg str self parents (x # rest) (outp, nodes_traced)
      = lineage_loop cfg str self parents rest (outp @ sfx, tr')"
      using lineage_loop_step[of cfg str self parents x nodes_traced] by blast
    with Cons(3) have "lineage_loop cfg str self parents rest (outp @ sfx, tr') = Inr (lg, tr)"
      by simp
    from Cons(1)[OF mem this] show ?thesis .
  qed
qed

lemma lineage_loop_no_entry:
  assumes "tid \<noteq> ROOT cfg" "tid \<notin> dom parents"
    and "lineage_loop cfg str self parents taxids (outp, nodes_traced) = Inr (lg, tr)"
    and "map_of nodes_traced tid = None"
  shows "map_of tr tid = None"
  using assms(3,4)
proof (induction taxids arbitrary: outp nodes_traced)
  case Nil
  then show ?case by simp
next
  case (Cons x rest)
  show ?case
  proof (cases "x = tid")
    case True
    with Cons(2) assms(1,2) have
      "lineage_loop cfg str self parents rest (outp @ warn_unknown str tid, nodes_traced)
           = Inr (lg, tr)"
      using lineage_loop_unknown[OF assms(1,2), of str self rest outp nodes_traced] by simp
    from Cons(1)[OF this Cons(3)] show ?thesis .
  next
    case False
    obtain sfx tr' where s: "lineage_loop cfg str self parents (x # rest) (outp, nodes_traced)
      = lineage_loop cfg str self parents rest (outp @ sfx, tr')"
      and k: "\<forall>k. k \<noteq> x \<longrightarrow> map_of tr' k = map_of nodes_traced k"
      using lineage_loop_step[of cfg str self parents x nodes_traced] by blast
    from s Cons(2) have r: "lineage_loop cfg str self parents rest (outp @ sfx, tr') = Inr (lg, tr)"
      by simp
    from k False Cons(3) have "map_of tr' tid = None" by simp
    from Cons(1)[OF r this] show ?thesis .
  qed
qed

lemma lineage_loop_others:
  assumes "tid \<noteq> ROOT cfg" "tid \<notin> dom parents"
    and "lineage_loop cfg str self parents taxids (outp, nodes_traced) = Inr (lg, tr)"
  shows "\<exists>lg'. lineage_loop cfg str self parents (removeAll tid taxids) (out2, nodes_traced)
           = Inr (lg', tr)"
  using assms(3)
proof (induction taxids arbitrary: outp out2 nodes_traced)
  case Nil
  then show ?case by simp
next
  case (Cons x rest)
  show ?case
  proof (cases "x = tid")
    case True
    with Cons(2) assms(1,2) have
      "lineage_loop cfg str self parents rest (outp @ warn_unknown str tid, nodes_traced)
           = Inr (lg, tr)"
      using lineage_loop_unknown[OF assms(1,2), of str self rest outp nodes_traced] by simp
    from Cons(1)[OF this, of out2] True show ?thesis by simp
  next
    case False
    obtain sfx tr' where a: "\<forall>rest out2.
        lineage_loop cfg str self parents (x # rest) (out2, nodes_traced)
          = lineage_loop cfg str self parents rest (out2 @ sfx, tr')"
      using lineage_loop_step[of cfg str self parents x nodes_traced] by blast
    then have s: "lineage_loop cfg str self parents (x # rest) (outp, nodes_traced)
      = lineage_loop cfg str self parents rest (outp @ sfx, tr')"
      and o: "lineage_loop cfg str self parents (x # removeAll tid rest) (out2, nodes_traced)
      = lineage_loop cfg str self parents (removeAll tid rest) (out2 @ sfx, tr')"
      by blast+
    from s Cons(2) have r: "lineage_loop cfg str self parents rest (outp @ sfx, tr') = Inr (lg, tr)"
      by simp
    from Cons(1)[OF r, of "out2 @ sfx"] o False show ?thesis by simp
  qed
qed

lemma lineage_loop_root:
  assumes "lineage_loop cfg str self parents taxids (outp, nodes_traced) = Inr (lg, tr)"
    and "ROOT cfg \<in> set taxids \<or> map_of nodes_traced (ROOT cfg) = Some [ROOT cfg]"
  shows "map_of tr (ROOT cfg) = Some [ROOT cfg]"
  using assms
proof (induction taxids arbitrary: outp nodes_traced)
  case Nil
  then show ?case by simp
next
  case (Cons x rest)
  show ?case
  proof (cases "x = ROOT cfg")
    case True
    with Cons(2) have r: "lineage_loop cfg str self parents rest
        (outp, AList.update (ROOT cfg) [ROOT cfg] nodes_traced) = Inr (lg, tr)"
      by simp
    have "map_of (AList.update (ROOT cfg) [ROOT cfg] nodes_traced) (ROOT cfg) = Some [ROOT cfg]"
      by (simp add: update_conv')
    with Cons(1)[OF r] show ?thesis by blast
  next
    case False
    obtain sfx tr' where a: "\<forall>rest out2.
        lineage_loop cfg str self parents (x # rest) (out2, nodes_traced)
          = lineage_loop cfg str self parents rest (out2 @ sfx, tr')"
      and k: "\<forall>k. k \<noteq> x \<longrightarrow> map_of tr' k = map_of nodes_traced k"
      using lineage_loop_step[of cfg str self parents x nodes_traced] by blast
    from a Cons(2) have r: "lineage_loop cfg str self parents rest (outp @ sfx, tr') = Inr (lg, tr)"
      by simp
    from k False have "map_of tr' (ROOT cfg) = map_of nodes_traced (ROOT cfg)" by simp
    with Cons(3) False have "ROOT cfg \<in> set rest \<or> map_of tr' (ROOT cfg) = Some [ROOT cfg]"
      by auto
    from Cons(1)[OF r this] show ?thesis .
  qed
qed

text \<open>
  Claim C8, as stated, fails for the root taxid: \<open>get_lineage\<close> handles \<^verbatim>\<open>ROOT\<close> before it
  looks at \<^verbatim>\<open>parents\<close>, so a \<^verbatim>\<open>ROOT\<close> that is absent from \<^verbatim>\<open>parents\<close> gets the entry
  \<^verbatim>\<open>[ROOT]\<close> and no warning.
\<close>

theorem get_lineage_root_counterexample:
  "get_lineage \<lparr>ROOT = 1::nat, NO_SCORE = 0\<rparr> (\<lambda>n. ''x'')
     (TaxTree 0 () 0 0 [(1, TaxTree 10 () 1 0 [(2, TaxTree 20 () 2 0
         [(3, TaxTree 30 () 3 0 [])])])])
     Map.empty [1]
   = Inr (lineage_header @ lineage_footer, [(1, [1])])"
  by (simp add: get_lineage_def)

text \<open>
  Claim C8, amended. \<open>get_lineage\<close> never raises. For a tree root, A, B and a taxid B that
  is in \<^verbatim>\<open>parents\<close>, it returns the dictionary with the one entry B: [root, A, B]. For a
  requested taxid other than \<^verbatim>\<open>ROOT\<close> that is absent from \<^verbatim>\<open>parents\<close>, the result has no
  entry for it, the log holds the warning for it, and the dictionary is the one the call
  returns without that taxid among the requested ones. A requested \<^verbatim>\<open>ROOT\<close> gets the entry
  \<^verbatim>\<open>[ROOT]\<close>, whether or not it is in \<^verbatim>\<open>parents\<close>.
\<close>

theorem get_lineage_correct:
  "(\<exists>lg tr. get_lineage cfg str self parents taxids = Inr (lg, tr))
   \<and> (A \<noteq> B \<and> B \<noteq> ROOT cfg \<and> B \<in> dom parents \<longrightarrow>
        get_lineage cfg str
          (TaxTree c0 r0 s0 a0 [(ROOT cfg, TaxTree c1 r1 s1 a1 [(A, TaxTree c2 r2 s2 a2
             [(B, TaxTree c3 r3 s3 a3 [])])])])
          parents [B]
        = Inr (lineage_header @ lineage_footer, [(B, [ROOT cfg, A, B])]))
   \<and> (tid \<noteq> ROOT cfg \<and> tid \<notin> dom parents \<and> tid \<in> set taxids \<longrightarrow>
        (\<exists>lg tr. get_lineage cfg str self parents taxids = Inr (lg, tr)
           \<and> map_of tr tid = None
           \<and> (\<exists>pre post. lg = pre @ warn_unknown str tid @ post)
           \<and> (\<exists>lg'. get_lineage cfg str self parents (removeAll tid taxids)
                  = Inr (lg', tr))))
   \<and> (ROOT cfg \<in> set taxids \<longrightarrow>
        (\<exists>lg tr. get_lineage cfg str self parents taxids = Inr (lg, tr)
           \<and> map_of tr (ROOT cfg) = Some [ROOT cfg]))"
proof (intro conjI impI)
  obtain sfx tr where l: "lineage_loop cfg str self parents taxids (lineage_header, [])
      = Inr (lineage_header @ sfx, tr)"
    using lineage_loop_total[of cfg str self parents taxids lineage_header "[]"] by blast
  then show "\<exists>lg tr. get_lineage cfg str self parents taxids = Inr (lg, tr)"
    by (simp add: get_lineage_def)
next
  assume "A \<noteq> B \<and> B \<noteq> ROOT cfg \<and> B \<in> dom parents"
  then show "get_lineage cfg str
          (TaxTree c0 r0 s0 a0 [(ROOT cfg, TaxTree c1 r1 s1 a1 [(A, TaxTree c2 r2 s2 a2
             [(B, TaxTree c3 r3 s3 a3 [])])])])
          parents [B]
        = Inr (lineage_header @ lineage_footer, [(B, [ROOT cfg, A, B])])"
    by (auto simp: get_lineage_def)
next
  assume h: "tid \<noteq> ROOT cfg \<and> tid \<notin> dom parents \<and> tid \<in> set taxids"
  obtain sfx tr where l: "lineage_loop cfg str self parents taxids (lineage_header, [])
      = Inr (lineage_header @ sfx, tr)"
    using lineage_loop_total[of cfg str self parents taxids lineage_header "[]"] by blast
  then have g: "get_lineage cfg str self parents taxids
      = Inr (lineage_header @ sfx @ lineage_footer, tr)"
    by (simp add: get_lineage_def)
  have none: "map_of tr tid = None"
    using lineage_loop_no_entry[OF _ _ l, of tid] h by simp
  obtain pre post where w: "lineage_header @ sfx = pre @ warn_unknown str tid @ post"
    using lineage_loop_warns[OF _ _ _ l, of tid] h by blast
  then have w': "lineage_header @ sfx @ lineage_footer
      = pre @ warn_unknown str tid @ (post @ lineage_footer)"
    by (metis append.assoc)
  obtain lg' where "lineage_loop cfg str self parents (removeAll tid taxids) (lineage_header, [])
      = Inr (lg', tr)"
    using lineage_loop_others[OF _ _ l, of tid lineage_header] h by blast
  then have o: "get_lineage cfg str self parents (removeAll tid taxids)
      = Inr (lg' @ lineage_footer, tr)"
    by (simp add: get_lineage_def)
  show "\<exists>lg tr. get_lineage cfg str self parents taxids = Inr (lg, tr)
           \<and> map_of tr tid = None
           \<and> (\<exists>pre post. lg = pre @ warn_unknown str tid @ post)
           \<and> (\<exists>lg'. get_lineage cfg str self parents (removeAll tid taxids)
                  = Inr (lg', tr))"
    using g none w' o by blast
next
  assume h: "ROOT cfg \<in> set taxids"
  obtain sfx tr where l: "lineage_loop cfg str self parents taxids (lineage_header, [])
      = Inr (lineage_header @ sfx, tr)"
    using lineage_loop_total[of cfg str self parents taxids lineage_header "[]"] by blast
  then have g: "get_lineage cfg str self parents taxids
      = Inr (lineage_header @ sfx @ lineage_footer, tr)"
    by (simp add: get_lineage_def)
  have "map_of tr (ROOT cfg) = Some [ROOT cfg]"
    using lineage_loop_root[OF l] h by simp
  with g show "\<exists>lg tr. get_lineage cfg str self parents taxids = Inr (lg, tr)
           \<and> map_of tr (ROOT cfg) = Some [ROOT cfg]"
    by blast
qed

theorem get_lineage_correct_witness:
  "get_lineage \<lparr>ROOT = 1::nat, NO_SCORE = 0::rat\<rparr> (\<lambda>n. ''x'')
     (TaxTree 0 () 0 0 [(1, TaxTree 10 () 1 0 [(2, TaxTree 20 () 2 0
         [(3, TaxTree 30 () 3 0 [])])])])
     [3 \<mapsto> 2, 2 \<mapsto> 1] [3]
   = Inr (lineage_header @ lineage_footer, [(3, [1, 2, 3])])
   \<and> get_lineage \<lparr>ROOT = 1::nat, NO_SCORE = 0::rat\<rparr> (\<lambda>n. ''x'')
     (TaxTree 0 () 0 0 [(1, TaxTree 10 () 1 0 [(2, TaxTree 20 () 2 0
         [(3, TaxTree 30 () 3 0 [])])])])
     [3 \<mapsto> 2, 2 \<mapsto> 1] [7, 3, 1]
   = Inr (lineage_header @ warn_unknown (\<lambda>n. ''x'') (7::nat) @ lineage_footer,
          [(3, [1, 2, 3]), (1, [1])])
   \<and> get_lineage \<lparr>ROOT = 1::nat, NO_SCORE = 0::rat\<rparr> (\<lambda>n. ''x'')
     (TaxTree 0 () 0 0 [(1, TaxTree 10 () 1 0 [(2, TaxTree 20 () 2 0
         [(3, TaxTree 30 () 3 0 [])])])])
     [3 \<mapsto> 2, 2 \<mapsto> 1] (removeAll 7 [7, 3, 1])
   = Inr (lineage_header @ lineage_footer, [(3, [1, 2, 3]), (1, [1])])"
  using get_lineage_correct
    [of "\<lparr>ROOT = 1::nat, NO_SCORE = 0::rat\<rparr>" "\<lambda>n. ''x''"
        "TaxTree 0 () 0 0 [(1, TaxTree 10 () 1 0 [(2, TaxTree 20 () 2 0
           [(3, TaxTree 30 () 3 0 [])])])]"
        "[3 \<mapsto> 2, 2 \<mapsto> 1]" "[7, 3, 1]" 2 3 0 "()" 0 0 10 "()" 1 0 20 "()" 2 0 30 "()" 3 0 7]
  by (simp add: get_lineage_def)

end
